theory Spec2Isabelle
  imports Main
begin

section \<open>Data model of the bus tracking module\<close>

text \<open>
  The store is the relational schema of the bus tracking migration; the writers are the
  handlers of the driver application. Identifiers (UUID columns) are natural numbers,
  instants (TIMESTAMPTZ) and dates are natural numbers ordered by time, and INTEGER
  columns are integers. A DECIMAL column holds integers in units of its last digit,
  and a write is refused when the value does not fit the precision of the column. The
  generated primary keys of the log tables are never read by any writer and are left
  out of the rows. The column \<open>status\<close> always holds one of its four values.
\<close>

type_synonym uuid = nat
type_synonym timestamp = nat
type_synonym date = nat
type_synonym decimal = int

datatype trip_kind = Morning | Afternoon | FieldTrip | Activity
datatype trip_status = Scheduled | InProgress | Completed | Cancelled
datatype stop_event_type = Arrived | Departed | Skipped
datatype scan_kind = Board | Exit
datatype alert_severity = Info | Warning | Critical
datatype alert_kind = Delay | Breakdown | Accident | RouteChange | Weather | Emergency
  | StudentIncident | Other
datatype user_role = Parent | Teacher | Admin | Driver
datatype feed_priority = Low | Normal | High | Urgent

text \<open>Table \<open>bus_trips\<close>. The column defaults are \<open>status = scheduled\<close>,
  \<open>current_stop_index = 0\<close> and \<open>students_on_board = 0\<close>.\<close>

record bus_trip =
  bt_id :: uuid
  bt_school_id :: uuid
  bt_route_id :: uuid
  bt_bus_id :: uuid
  bt_driver_id :: uuid
  trip_date :: date
  trip_type :: trip_kind
  status :: trip_status
  scheduled_start :: "string option"
  actual_start :: "timestamp option"
  actual_end :: "timestamp option"
  current_latitude :: "decimal option"
  current_longitude :: "decimal option"
  current_speed :: "decimal option"
  current_heading :: "decimal option"
  last_location_update :: "timestamp option"
  current_stop_index :: int
  students_on_board :: int

text \<open>Table \<open>bus_location_history\<close>.\<close>

record location_fix =
  h_trip_id :: uuid
  h_latitude :: decimal
  h_longitude :: decimal
  h_speed :: "decimal option"
  h_heading :: "decimal option"
  h_accuracy :: "decimal option"
  h_recorded_at :: timestamp

text \<open>Table \<open>bus_stop_events\<close>.\<close>

record stop_event =
  e_trip_id :: uuid
  e_stop_id :: uuid
  event_type :: stop_event_type
  e_scheduled_time :: "string option"
  e_actual_time :: timestamp
  students_boarded :: int
  students_exited :: int

text \<open>Table \<open>student_bus_scans\<close>.\<close>

record bus_scan =
  s_trip_id :: uuid
  s_student_id :: uuid
  s_stop_id :: "uuid option"
  scan_type :: scan_kind
  scanned_at :: timestamp

text \<open>Table \<open>bus_alerts\<close>.\<close>

record bus_alert =
  a_school_id :: uuid
  a_trip_id :: "uuid option"
  a_route_id :: "uuid option"
  alert_type :: alert_kind
  severity :: alert_severity
  a_title :: string
  a_message :: "string option"
  resolved :: bool
  a_created_by :: "uuid option"
  a_created_at :: timestamp

text \<open>Table \<open>feed_items\<close>, with the two shapes of metadata the bus triggers build.\<close>

datatype feed_metadata =
  TripMeta uuid uuid uuid trip_kind
  | AlertMeta alert_kind alert_severity "uuid option"

record feed_item =
  f_school_id :: uuid
  f_title :: string
  f_body :: "string option"
  f_priority :: feed_priority
  f_metadata :: feed_metadata

text \<open>The columns of \<open>buses\<close> and \<open>bus_routes\<close> that the trip trigger joins.\<close>

record bus =
  b_id :: uuid
  b_school_id :: uuid
  bus_number :: string

record bus_route =
  r_id :: uuid
  r_school_id :: uuid
  route_number :: string
  r_name :: string

text \<open>The columns of \<open>bus_stops\<close>, \<open>student_bus_assignments\<close>, \<open>students\<close> and
  \<open>student_guardians\<close> that the trip screen and the read policies read.\<close>

record bus_stop =
  stop_id :: uuid
  stop_school_id :: uuid
  stop_route_id :: uuid
  stop_number :: int
  stop_scheduled_time :: "string option"
  stop_active :: bool

record bus_assignment =
  as_school_id :: uuid
  as_student_id :: uuid
  morning_route_id :: "uuid option"
  morning_stop_id :: "uuid option"
  afternoon_route_id :: "uuid option"
  afternoon_stop_id :: "uuid option"
  as_active :: bool

record student =
  sd_id :: uuid
  sd_school_id :: uuid

record student_guardian =
  g_school_id :: uuid
  g_student_id :: uuid
  g_user_id :: uuid

record db =
  students_table :: "student list"
  student_guardians :: "student_guardian list"
  buses :: "bus list"
  bus_routes :: "bus_route list"
  bus_stops :: "bus_stop list"
  student_bus_assignments :: "bus_assignment list"
  bus_trips :: "bus_trip list"
  bus_location_history :: "location_fix list"
  bus_stop_events :: "stop_event list"
  student_bus_scans :: "bus_scan list"
  bus_alerts :: "bus_alert list"
  feed_items :: "feed_item list"

text \<open>The signed-in user: \<open>auth.uid()\<close> and the row of \<open>users\<close> that
  \<open>get_user_school_id()\<close> and \<open>get_user_role()\<close> read.\<close>

record session =
  auth_uid :: uuid
  get_user_school_id :: uuid
  get_user_role :: user_role

datatype pg_error =
  InvalidTextRepresentation
  | NotNullViolation
  | RlsViolation
  | UniqueViolation
  | ForeignKeyViolation
  | NumericValueOutOfRange
  | DatatypeMismatch

section \<open>Row level security\<close>

text \<open>Policies \<open>bus_trips_view\<close> (FOR SELECT) and \<open>bus_trips_driver\<close> (FOR ALL).\<close>

definition bus_trips_view :: "session \<Rightarrow> bus_trip \<Rightarrow> bool" where
  "bus_trips_view s t \<longleftrightarrow> bt_school_id t = get_user_school_id s"

definition bus_trips_driver :: "session \<Rightarrow> bus_trip \<Rightarrow> bool" where
  "bus_trips_driver s t \<longleftrightarrow>
     bt_school_id t = get_user_school_id s \<and>
     (bt_driver_id t = auth_uid s \<or> get_user_role s = Admin)"

text \<open>The three policies \<open>bus_location_history_driver\<close>, \<open>bus_stop_events_driver\<close> and
  \<open>student_bus_scans_driver\<close> have the same body: a trip with the row's \<open>trip_id\<close>
  exists, is visible to the user, and is driven by the user unless the user is an admin.\<close>

definition trip_rows_driver :: "session \<Rightarrow> db \<Rightarrow> uuid \<Rightarrow> bool" where
  "trip_rows_driver s d tid \<longleftrightarrow>
     (\<exists>bt \<in> set (bus_trips d). (bus_trips_view s bt \<or> bus_trips_driver s bt) \<and>
        bt_id bt = tid \<and> (bt_driver_id bt = auth_uid s \<or> get_user_role s = Admin))"

text \<open>The rows of \<open>bus_stop_events\<close> a read shows: those \<open>bus_stop_events_driver\<close> or
  \<open>bus_stop_events_view\<close> admits.\<close>

definition bus_stop_events_select :: "session \<Rightarrow> db \<Rightarrow> stop_event \<Rightarrow> bool" where
  "bus_stop_events_select s d e \<longleftrightarrow>
     trip_rows_driver s d (e_trip_id e) \<or>
     (\<exists>bt \<in> set (bus_trips d). (bus_trips_view s bt \<or> bus_trips_driver s bt) \<and>
        bt_id bt = e_trip_id e \<and> bt_school_id bt = get_user_school_id s)"

text \<open>Policies \<open>bus_stops_view\<close>, \<open>bus_routes_parent\<close> and \<open>buses_view\<close>; each shows
  every row the other policies of its table show.\<close>

definition bus_stops_view :: "session \<Rightarrow> bus_stop \<Rightarrow> bool" where
  "bus_stops_view s st \<longleftrightarrow> stop_school_id st = get_user_school_id s"

definition bus_routes_parent :: "session \<Rightarrow> bus_route \<Rightarrow> bool" where
  "bus_routes_parent s r \<longleftrightarrow> r_school_id r = get_user_school_id s"

definition buses_view :: "session \<Rightarrow> bus \<Rightarrow> bool" where
  "buses_view s b \<longleftrightarrow> b_school_id b = get_user_school_id s"

text \<open>Function \<open>is_guardian_of\<close>, which reads every guardian link (SECURITY DEFINER),
  and policy "View students based on role".\<close>

definition is_guardian_of :: "session \<Rightarrow> db \<Rightarrow> uuid \<Rightarrow> bool" where
  "is_guardian_of s d student_uuid \<longleftrightarrow>
     (\<exists>g \<in> set (student_guardians d).
        g_user_id g = auth_uid s \<and> g_student_id g = student_uuid)"

definition view_students :: "session \<Rightarrow> db \<Rightarrow> student \<Rightarrow> bool" where
  "view_students s d st \<longleftrightarrow>
     sd_school_id st = get_user_school_id s \<and>
     (get_user_role s \<in> {Admin, Teacher} \<or> is_guardian_of s d (sd_id st))"

text \<open>Policy "View guardian links", and the subquery \<open>SELECT student_id FROM
  student_guardians WHERE user_id = auth.uid()\<close> of the two parent policies, which
  reads through it.\<close>

definition view_guardian_links :: "session \<Rightarrow> student_guardian \<Rightarrow> bool" where
  "view_guardian_links s g \<longleftrightarrow>
     g_school_id g = get_user_school_id s \<and>
     (get_user_role s = Admin \<or> g_user_id g = auth_uid s \<or> get_user_role s = Teacher)"

definition guarded_students :: "session \<Rightarrow> db \<Rightarrow> uuid list" where
  "guarded_students s d =
     map g_student_id
       (filter (\<lambda>g. view_guardian_links s g \<and> g_user_id g = auth_uid s) (student_guardians d))"

text \<open>The rows a read shows of \<open>student_bus_assignments\<close> (policy
  \<open>student_bus_assignments_admin\<close> or \<open>student_bus_assignments_parent\<close>) and of
  \<open>student_bus_scans\<close> (policy \<open>student_bus_scans_driver\<close> or
  \<open>student_bus_scans_parent\<close>).\<close>

definition student_bus_assignments_select :: "session \<Rightarrow> db \<Rightarrow> bus_assignment \<Rightarrow> bool" where
  "student_bus_assignments_select s d a \<longleftrightarrow>
     (as_school_id a = get_user_school_id s \<and> get_user_role s \<in> {Admin, Driver}) \<or>
     as_student_id a \<in> set (guarded_students s d)"

definition student_bus_scans_select :: "session \<Rightarrow> db \<Rightarrow> bus_scan \<Rightarrow> bool" where
  "student_bus_scans_select s d x \<longleftrightarrow>
     trip_rows_driver s d (s_trip_id x) \<or> s_student_id x \<in> set (guarded_students s d)"

definition bus_alerts_manage :: "session \<Rightarrow> bus_alert \<Rightarrow> bool" where
  "bus_alerts_manage s a \<longleftrightarrow>
     a_school_id a = get_user_school_id s \<and> get_user_role s \<in> {Admin, Driver}"

text \<open>Policy "Staff can create feed items" (FOR INSERT).\<close>

definition staff_can_create_feed_items :: "session \<Rightarrow> feed_item \<Rightarrow> bool" where
  "staff_can_create_feed_items s f \<longleftrightarrow>
     f_school_id f = get_user_school_id s \<and> get_user_role s \<in> {Admin, Teacher}"

section \<open>Writes to the store\<close>

text \<open>
  A statement either commits, giving the new store, or raises, and then the store is the
  one before the statement: a row trigger runs inside the statement that fired it, with
  the rights of the user who issued it, so an error raised in a trigger undoes the
  statement. The foreign keys on school, user, student and stop identifiers are taken
  to hold: the handlers pass identifiers the application has read from those tables.
\<close>

definition insert_feed_items :: "session \<Rightarrow> feed_item \<Rightarrow> db \<Rightarrow> pg_error + db" where
  "insert_feed_items s f d =
     (if staff_can_create_feed_items s f
      then Inr (d\<lparr>feed_items := feed_items d @ [f]\<rparr>)
      else Inl RlsViolation)"

fun insert_all_feed_items :: "session \<Rightarrow> feed_item list \<Rightarrow> db \<Rightarrow> pg_error + db" where
  "insert_all_feed_items s [] d = Inr d"
| "insert_all_feed_items s (f # fs) d =
     (case insert_feed_items s f d of
        Inl e \<Rightarrow> Inl e
      | Inr d' \<Rightarrow> insert_all_feed_items s fs d')"

text \<open>The rows selected by the trip trigger: \<open>bus_routes r JOIN buses b ON b.id =
  NEW.bus_id WHERE r.id = NEW.route_id\<close>, each table filtered by its read policy
  (\<open>school_id = get_user_school_id()\<close>).\<close>

definition trip_started_rows :: "session \<Rightarrow> bus_trip \<Rightarrow> db \<Rightarrow> feed_item list" where
  "trip_started_rows s new d =
     concat (map (\<lambda>r. map (\<lambda>b.
        \<lparr>f_school_id = bt_school_id new,
         f_title = ''Bus '' @ bus_number b @ '' is on the way'',
         f_body = Some (''Route '' @ route_number r @ '' ('' @ r_name r @ '') has started''),
         f_priority = Normal,
         f_metadata = TripMeta (bt_id new) (bt_route_id new) (bt_bus_id new) (trip_type new)\<rparr>)
        (filter (\<lambda>b. b_school_id b = get_user_school_id s \<and> b_id b = bt_bus_id new) (buses d)))
      (filter (\<lambda>r. r_school_id r = get_user_school_id s \<and> r_id r = bt_route_id new)
         (bus_routes d)))"

text \<open>Trigger \<open>on_bus_trip_status_change\<close> (AFTER INSERT OR UPDATE ON bus_trips);
  \<open>old\<close> is \<open>None\<close> on INSERT.\<close>

definition create_bus_feed_item ::
  "session \<Rightarrow> bus_trip option \<Rightarrow> bus_trip \<Rightarrow> db \<Rightarrow> pg_error + db" where
  "create_bus_feed_item s old new d =
     (if status new = InProgress \<and> (old = None \<or> map_option status old = Some Scheduled)
      then insert_all_feed_items s (trip_started_rows s new d) d
      else Inr d)"

text \<open>\<open>UPDATE bus_trips SET ... WHERE id = tid\<close>. The row is updated when policy
  \<open>bus_trips_driver\<close> admits it (a row the policy hides is skipped without error), the
  new row is checked against the same policy, and the trip trigger fires on it.
  \<open>id\<close> is the primary key, so at most one row matches.\<close>

definition update_bus_trips ::
  "session \<Rightarrow> uuid \<Rightarrow> (bus_trip \<Rightarrow> bus_trip) \<Rightarrow> db \<Rightarrow> pg_error + db" where
  "update_bus_trips s tid upd d =
     (case find (\<lambda>t. bt_id t = tid \<and> bus_trips_driver s t) (bus_trips d) of
        None \<Rightarrow> Inr d
      | Some old \<Rightarrow>
          if \<not> bus_trips_driver s (upd old) then Inl RlsViolation
          else create_bus_feed_item s (Some old) (upd old)
                 (d\<lparr>bus_trips :=
                      map (\<lambda>t. if bt_id t = tid \<and> bus_trips_driver s t then upd t else t)
                        (bus_trips d)\<rparr>))"

text \<open>SQL \<open>SUM\<close> is NULL over no rows; \<open>COALESCE\<close> replaces NULL.\<close>

definition sql_sum :: "int list \<Rightarrow> int option" where
  "sql_sum xs = (if xs = [] then None else Some (sum_list xs))"

definition coalesce :: "'a option \<Rightarrow> 'a \<Rightarrow> 'a" where
  "coalesce v dflt = (case v of None \<Rightarrow> dflt | Some x \<Rightarrow> x)"

text \<open>Trigger \<open>on_student_scan\<close> (AFTER INSERT ON student_bus_scans).\<close>

definition update_trip_student_count :: "session \<Rightarrow> bus_scan \<Rightarrow> db \<Rightarrow> pg_error + db" where
  "update_trip_student_count s new d =
     update_bus_trips s (s_trip_id new)
       (\<lambda>t. t\<lparr>students_on_board :=
          coalesce (sql_sum (map (\<lambda>x. if scan_type x = Board then 1 else - 1)
            (filter (\<lambda>x. s_trip_id x = s_trip_id new) (student_bus_scans d)))) 0\<rparr>) d"

definition insert_student_bus_scans :: "session \<Rightarrow> bus_scan \<Rightarrow> db \<Rightarrow> pg_error + db" where
  "insert_student_bus_scans s row d =
     (if \<not> trip_rows_driver s d (s_trip_id row) then Inl RlsViolation
      else update_trip_student_count s row
             (d\<lparr>student_bus_scans := student_bus_scans d @ [row]\<rparr>))"

section \<open>The trip screen of the driver application\<close>

text \<open>Interfaces \<open>BusStop\<close> and \<open>Student\<close> of the screen: a stop row with the two flags
  derived from the stop events, a rostered student with the flag derived from the scans.\<close>

record BusStop =
  bs_row :: bus_stop
  arrived :: bool
  departed :: bool

record Student =
  st_id :: uuid
  st_stop_id :: "uuid option"
  boarded :: bool

text \<open>Interface \<open>Trip\<close>: the trip row with the embedded rows of its route and bus,
  each \<open>null\<close> when the store returns none.\<close>

record Trip =
  t_row :: bus_trip
  t_route :: "bus_route option"
  t_bus :: "bus option"

record screen =
  trip :: "Trip option"
  stops :: "BusStop list"
  students :: "Student list"
  currentStopIndex :: int

text \<open>\<open>eventsByStop\<close> groups the event types of the trip by stop; a stop is flagged
  when the group includes the type.\<close>

definition stopsWithEvents :: "bus_stop list \<Rightarrow> stop_event list \<Rightarrow> BusStop list" where
  "stopsWithEvents stopsData stopEvents =
     map (\<lambda>stop.
        let events = map event_type (filter (\<lambda>e. e_stop_id e = stop_id stop) stopEvents)
        in \<lparr>bs_row = stop, arrived = Arrived \<in> set events, departed = Departed \<in> set events\<rparr>)
       stopsData"

definition boardedStudents :: "bus_scan list \<Rightarrow> uuid set" where
  "boardedStudents scans = set (map s_student_id (filter (\<lambda>s. scan_type s = Board) scans))"

definition studentsData :: "trip_kind \<Rightarrow> bus_assignment list \<Rightarrow> bus_scan list \<Rightarrow> Student list" where
  "studentsData tt assignmentsData scans =
     map (\<lambda>a.
        \<lparr>st_id = as_student_id a,
         st_stop_id = (if tt = Morning then morning_stop_id a else afternoon_stop_id a),
         boarded = as_student_id a \<in> boardedStudents scans\<rparr>)
       assignmentsData"

text \<open>The rows \<open>fetchTripData\<close> reads for the roster of a trip, and the student row
  embedded in one of them, \<open>null\<close> when the read policy of \<open>students\<close> hides it.\<close>

definition assignmentsData :: "session \<Rightarrow> db \<Rightarrow> bus_trip \<Rightarrow> bus_assignment list" where
  "assignmentsData s d tripData =
     filter (\<lambda>a. (if trip_type tripData = Morning then morning_route_id a
                   else afternoon_route_id a) = Some (bt_route_id tripData) \<and>
                  as_active a \<and> student_bus_assignments_select s d a)
       (student_bus_assignments d)"

definition embedded_student :: "session \<Rightarrow> db \<Rightarrow> bus_assignment \<Rightarrow> student option" where
  "embedded_student s d a =
     find (\<lambda>st. sd_id st = as_student_id a \<and> view_students s d st) (students_table d)"

text \<open>\<open>fetchTripData\<close>, where \<open>tid\<close> is the screen's route parameter \<open>id\<close>. Every
  read returns the rows its policies show the user. The trip is read with
  \<open>.single()\<close>, which fails unless exactly one row matches; the failure is caught and
  the screen keeps its state. Otherwise the trip, the current stop index and the stops
  are set. Reading \<open>a.student.id\<close> of an assignment whose embedded student is
  \<open>null\<close> throws, which is caught as well: the student list is then left as it
  was. An embedded student is the row whose \<open>id\<close> is the \<open>student_id\<close> of the
  assignment, so \<open>studentsData\<close> takes \<open>a.student.id\<close> from that column.\<close>

definition fetchTripData :: "session \<Rightarrow> uuid \<Rightarrow> db \<Rightarrow> screen \<Rightarrow> screen" where
  "fetchTripData s tid d ui =
     (case filter (\<lambda>t. bt_id t = tid \<and> (bus_trips_view s t \<or> bus_trips_driver s t))
             (bus_trips d) of
        [tripData] \<Rightarrow>
          let ui1 = ui
                \<lparr>trip := Some
                   \<lparr>t_row = tripData,
                    t_route = find (\<lambda>r. r_id r = bt_route_id tripData \<and> bus_routes_parent s r)
                                (bus_routes d),
                    t_bus = find (\<lambda>b. b_id b = bt_bus_id tripData \<and> buses_view s b) (buses d)\<rparr>,
                 currentStopIndex := current_stop_index tripData,
                 stops := stopsWithEvents
                   (sort_key stop_number
                      (filter (\<lambda>st. stop_route_id st = bt_route_id tripData \<and> stop_active st \<and>
                                     bus_stops_view s st)
                         (bus_stops d)))
                   (filter (\<lambda>e. e_trip_id e = tid \<and> bus_stop_events_select s d e)
                      (bus_stop_events d))\<rparr>
          in if \<forall>a \<in> set (assignmentsData s d tripData). embedded_student s d a \<noteq> None
             then ui1\<lparr>students := studentsData (trip_type tripData)
                    (assignmentsData s d tripData)
                    (filter (\<lambda>x. s_trip_id x = tid \<and> student_bus_scans_select s d x)
                       (student_bus_scans d))\<rparr>
             else ui1
      | _ \<Rightarrow> ui)"

text \<open>\<open>stops[currentStopIndex]\<close>: \<open>undefined\<close> outside the array.\<close>

definition stop_at :: "BusStop list \<Rightarrow> int \<Rightarrow> BusStop option" where
  "stop_at xs i = (if 0 \<le> i \<and> i < int (length xs) then Some (xs ! nat i) else None)"

text \<open>\<open>handleScanStudent\<close>. The client library returns an error of the store as a value,
  which the handler does not read; \<open>scanned_at\<close> is filled by the column default
  \<open>NOW()\<close>, the clock of the store.\<close>

definition handleScanStudent ::
  "session \<Rightarrow> timestamp \<Rightarrow> uuid \<Rightarrow> screen \<Rightarrow> Student \<Rightarrow> scan_kind \<Rightarrow> db \<Rightarrow> db" where
  "handleScanStudent s server_now tid ui student scanType d =
     (case insert_student_bus_scans s
        \<lparr>s_trip_id = tid,
         s_student_id = st_id student,
         s_stop_id = map_option (\<lambda>b. stop_id (bs_row b)) (stop_at (stops ui) (currentStopIndex ui)),
         scan_type = scanType,
         scanned_at = server_now\<rparr> d of
        Inl e \<Rightarrow> d
      | Inr d' \<Rightarrow> d')"

text \<open>The students listed on the card of the current stop, those assigned to it; the
  card is rendered only when \<open>stops[currentStopIndex]\<close> exists.\<close>

definition studentsAtCurrentStop :: "screen \<Rightarrow> Student list" where
  "studentsAtCurrentStop ui =
     (case stop_at (stops ui) (currentStopIndex ui) of
        None \<Rightarrow> []
      | Some currentStop \<Rightarrow>
          filter (\<lambda>st. st_stop_id st = Some (stop_id (bs_row currentStop))) (students ui))"

text \<open>The row of a student on that card: pressing it scans \<open>exit\<close> when the student is
  flagged as boarded and \<open>board\<close> otherwise, and the handler reloads the screen.\<close>

definition pressStudent ::
  "session \<Rightarrow> timestamp \<Rightarrow> uuid \<Rightarrow> uuid \<Rightarrow> screen \<times> db \<Rightarrow> screen \<times> db" where
  "pressStudent s server_now tid sid = (\<lambda>(ui, d).
     (case find (\<lambda>st. st_id st = sid) (studentsAtCurrentStop ui) of
        None \<Rightarrow> (ui, d)
      | Some student \<Rightarrow>
          let d' = handleScanStudent s server_now tid ui student
                     (if boarded student then Exit else Board) d
          in (fetchTripData s tid d' ui, d')))"

text \<open>The number of scans of one type in the scan log of a trip.\<close>

definition scan_count :: "scan_kind \<Rightarrow> uuid \<Rightarrow> db \<Rightarrow> nat" where
  "scan_count k tid d =
     length (filter (\<lambda>x. s_trip_id x = tid \<and> scan_type x = k) (student_bus_scans d))"

definition signed_count :: "uuid \<Rightarrow> db \<Rightarrow> int" where
  "signed_count tid d = int (scan_count Board tid d) - int (scan_count Exit tid d)"

text \<open>The row \<open>handleScanStudent\<close> sends to the store.\<close>

definition scan_row :: "timestamp \<Rightarrow> uuid \<Rightarrow> screen \<Rightarrow> Student \<Rightarrow> scan_kind \<Rightarrow> bus_scan" where
  "scan_row server_now tid ui student scanType =
     \<lparr>s_trip_id = tid,
      s_student_id = st_id student,
      s_stop_id = map_option (\<lambda>b. stop_id (bs_row b)) (stop_at (stops ui) (currentStopIndex ui)),
      scan_type = scanType,
      scanned_at = server_now\<rparr>"

section \<open>Stop events, telemetry and the end of a trip\<close>

text \<open>A value fits a column \<open>DECIMAL(p, s)\<close> when, in units of the last digit, its
  absolute value is below \<open>10 ^ p\<close>; NULL fits every column that admits it.\<close>

definition fits :: "nat \<Rightarrow> decimal \<Rightarrow> bool" where
  "fits p v \<longleftrightarrow> \<bar>v\<bar> < 10 ^ p"

definition fits_opt :: "nat \<Rightarrow> decimal option \<Rightarrow> bool" where
  "fits_opt p v = (case v of None \<Rightarrow> True | Some x \<Rightarrow> fits p x)"

text \<open>The columns of \<open>bus_location_history\<close>: \<open>latitude DECIMAL(10, 8)\<close>,
  \<open>longitude DECIMAL(11, 8)\<close>, \<open>speed\<close> and \<open>heading DECIMAL(5, 2)\<close>,
  \<open>accuracy DECIMAL(6, 2)\<close>.\<close>

definition history_fits :: "location_fix \<Rightarrow> bool" where
  "history_fits row \<longleftrightarrow>
     fits 10 (h_latitude row) \<and> fits 11 (h_longitude row) \<and>
     fits_opt 5 (h_speed row) \<and> fits_opt 5 (h_heading row) \<and> fits_opt 6 (h_accuracy row)"

text \<open>The two log tables have no trigger and no uniqueness constraint; the foreign key
  on \<open>trip_id\<close> is implied by the insert policy.\<close>

definition insert_bus_stop_events :: "session \<Rightarrow> stop_event \<Rightarrow> db \<Rightarrow> pg_error + db" where
  "insert_bus_stop_events s row d =
     (if \<not> trip_rows_driver s d (e_trip_id row) then Inl RlsViolation
      else Inr (d\<lparr>bus_stop_events := bus_stop_events d @ [row]\<rparr>))"

definition insert_bus_location_history ::
  "session \<Rightarrow> location_fix \<Rightarrow> db \<Rightarrow> pg_error + db" where
  "insert_bus_location_history s row d =
     (if \<not> history_fits row then Inl NumericValueOutOfRange
      else if \<not> trip_rows_driver s d (h_trip_id row) then Inl RlsViolation
      else Inr (d\<lparr>bus_location_history := bus_location_history d @ [row]\<rparr>))"

text \<open>The store after a statement whose error the caller does not read.\<close>

definition committed :: "db \<Rightarrow> pg_error + db \<Rightarrow> db" where
  "committed d r = (case r of Inl e \<Rightarrow> d | Inr d' \<Rightarrow> d')"

text \<open>\<open>handleArriveAtStop\<close>: omitted columns take their defaults (\<open>actual_time =
  NOW()\<close>, both counters 0).\<close>

definition handleArriveAtStop :: "session \<Rightarrow> timestamp \<Rightarrow> uuid \<Rightarrow> BusStop \<Rightarrow> db \<Rightarrow> db" where
  "handleArriveAtStop s server_now tid stop d =
     (let d1 = committed d (insert_bus_stop_events s
                 \<lparr>e_trip_id = tid,
                  e_stop_id = stop_id (bs_row stop),
                  event_type = Arrived,
                  e_scheduled_time = stop_scheduled_time (bs_row stop),
                  e_actual_time = server_now,
                  students_boarded = 0,
                  students_exited = 0\<rparr> d)
      in committed d1 (update_bus_trips s tid
           (\<lambda>t. t\<lparr>current_stop_index := stop_number (bs_row stop)\<rparr>) d1))"

definition handleDepartFromStop ::
  "session \<Rightarrow> timestamp \<Rightarrow> uuid \<Rightarrow> BusStop \<Rightarrow> int \<Rightarrow> int \<Rightarrow> db \<Rightarrow> db" where
  "handleDepartFromStop s server_now tid stop studentsBoarded studentsExited d =
     committed d (insert_bus_stop_events s
       \<lparr>e_trip_id = tid,
        e_stop_id = stop_id (bs_row stop),
        event_type = Departed,
        e_scheduled_time = None,
        e_actual_time = server_now,
        students_boarded = studentsBoarded,
        students_exited = studentsExited\<rparr> d)"

text \<open>The card of the current stop offers one action: "Arrive at Stop" while the stop is
  not flagged as arrived, "Depart from Stop" while it is arrived and not departed, and
  none afterwards. The handlers reload the screen.\<close>

definition pressStopAction ::
  "session \<Rightarrow> timestamp \<Rightarrow> uuid \<Rightarrow> screen \<times> db \<Rightarrow> screen \<times> db" where
  "pressStopAction s server_now tid = (\<lambda>(ui, d).
     (case stop_at (stops ui) (currentStopIndex ui) of
        None \<Rightarrow> (ui, d)
      | Some currentStop \<Rightarrow>
          if \<not> arrived currentStop then
            let d' = handleArriveAtStop s server_now tid currentStop d
            in (fetchTripData s tid d' ui, d')
          else if \<not> departed currentStop then
            let studentsAtCurrentStop =
                  filter (\<lambda>st. st_stop_id st = Some (stop_id (bs_row currentStop))) (students ui);
                d' = handleDepartFromStop s server_now tid currentStop
                       (int (length (filter boarded studentsAtCurrentStop))) 0 d
            in (fetchTripData s tid d' ui, d')
          else (ui, d)))"

text \<open>An item of the list of all stops: pressing it makes that stop the current one.\<close>

definition pressStopItem :: "nat \<Rightarrow> screen \<times> db \<Rightarrow> screen \<times> db" where
  "pressStopItem index = (\<lambda>(ui, d).
     if index < length (stops ui) then (ui\<lparr>currentStopIndex := int index\<rparr>, d) else (ui, d))"

text \<open>A position reported by the device (\<open>Location.LocationObject\<close>), each number as
  the store rounds it to the scale of its column: latitude and longitude in units of
  0.00000001 degrees, speed, heading and accuracy in hundredths.\<close>

record LocationObject =
  latitude :: decimal
  longitude :: decimal
  speed :: "decimal option"
  heading :: "decimal option"
  accuracy :: "decimal option"
  timestamp :: timestamp

text \<open>The values \<open>updateLocation\<close> assigns to the trip fit their columns:
  \<open>current_latitude DECIMAL(10, 8)\<close>, \<open>current_longitude DECIMAL(11, 8)\<close>,
  \<open>current_speed\<close> and \<open>current_heading DECIMAL(5, 2)\<close>. \<open>location_fits\<close> adds the
  accuracy, which only the history stores.\<close>

definition snapshot_fits :: "LocationObject \<Rightarrow> bool" where
  "snapshot_fits location \<longleftrightarrow>
     fits 10 (latitude location) \<and> fits 11 (longitude location) \<and>
     fits_opt 5 (speed location) \<and> fits_opt 5 (heading location)"

definition location_fits :: "LocationObject \<Rightarrow> bool" where
  "location_fits location \<longleftrightarrow> snapshot_fits location \<and> fits_opt 6 (accuracy location)"

text \<open>\<open>updateLocation\<close>: \<open>device_now\<close> is \<open>new Date()\<close> on the device,
  \<open>server_now\<close> the default \<open>NOW()\<close> of \<open>recorded_at\<close>. The update is refused when
  an assigned value does not fit its column; the insert follows in either case.\<close>

definition updateLocation ::
  "session \<Rightarrow> timestamp \<Rightarrow> timestamp \<Rightarrow> uuid \<Rightarrow> LocationObject \<Rightarrow> db \<Rightarrow> db" where
  "updateLocation s device_now server_now tid location d =
     (let d1 = committed d
                 (if \<not> snapshot_fits location then Inl NumericValueOutOfRange
                  else update_bus_trips s tid
                 (\<lambda>t. t\<lparr>current_latitude := Some (latitude location),
                        current_longitude := Some (longitude location),
                        current_speed := speed location,
                        current_heading := heading location,
                        last_location_update := Some device_now\<rparr>) d)
      in committed d1 (insert_bus_location_history s
           \<lparr>h_trip_id = tid,
            h_latitude = latitude location,
            h_longitude = longitude location,
            h_speed = speed location,
            h_heading = heading location,
            h_accuracy = accuracy location,
            h_recorded_at = server_now\<rparr> d1))"

text \<open>\<open>handleEndTrip\<close>: the dialog is answered with "End Trip" (\<open>confirm\<close>) or with
  "Cancel".\<close>

definition handleEndTrip :: "session \<Rightarrow> timestamp \<Rightarrow> uuid \<Rightarrow> bool \<Rightarrow> db \<Rightarrow> db" where
  "handleEndTrip s device_now tid confirm d =
     (if confirm then
        committed d (update_bus_trips s tid
          (\<lambda>t. t\<lparr>status := Completed, actual_end := Some device_now\<rparr>) d)
      else d)"

text \<open>The event types logged for one stop of one trip, in the order of the log.\<close>

definition stop_log :: "uuid \<Rightarrow> uuid \<Rightarrow> db \<Rightarrow> stop_event_type list" where
  "stop_log tid sid d =
     map event_type (filter (\<lambda>e. e_trip_id e = tid \<and> e_stop_id e = sid) (bus_stop_events d))"

section \<open>Alerts\<close>

text \<open>The types of the expressions the triggers insert into \<open>feed_items.priority\<close>, a
  column of the enumerated type \<open>feed_priority\<close>. A string literal has the type
  unknown until its context decides it. A \<open>CASE\<close> takes the first type among its
  branches that is not unknown, and the type text when every branch is a literal. An
  unknown literal is read as a value of the column's type; an expression of the type
  text is not assigned to an enumerated column.\<close>

datatype sql_type = SqlUnknown | SqlText | SqlFeedPriority

definition case_type :: "sql_type list \<Rightarrow> sql_type" where
  "case_type branches =
     (case filter (\<lambda>t. t \<noteq> SqlUnknown) branches of [] \<Rightarrow> SqlText | t # ts \<Rightarrow> t)"

definition assignable :: "sql_type \<Rightarrow> sql_type \<Rightarrow> bool" where
  "assignable expr col \<longleftrightarrow> expr = SqlUnknown \<or> expr = col"

text \<open>Trigger \<open>on_bus_alert_created\<close> (AFTER INSERT ON bus_alerts): the feed item it
  builds, and its insert. The metadata key \<open>alert_id\<close>, a generated key, is left out.
  The priority is \<open>CASE WHEN ... THEN 'urgent' WHEN ... THEN 'high' ELSE 'normal' END\<close>,
  three literals.\<close>

definition alert_feed_item :: "bus_alert \<Rightarrow> feed_item" where
  "alert_feed_item new =
     \<lparr>f_school_id = a_school_id new,
      f_title = a_title new,
      f_body = a_message new,
      f_priority = (if severity new = Critical then Urgent
                    else if severity new = Warning then High
                    else Normal),
      f_metadata = AlertMeta (alert_type new) (severity new) (a_trip_id new)\<rparr>"

definition create_bus_alert_feed_item :: "session \<Rightarrow> bus_alert \<Rightarrow> db \<Rightarrow> pg_error + db" where
  "create_bus_alert_feed_item s new d =
     (if \<not> assignable (case_type [SqlUnknown, SqlUnknown, SqlUnknown]) SqlFeedPriority
      then Inl DatatypeMismatch
      else insert_feed_items s (alert_feed_item new) d)"

text \<open>The foreign keys of \<open>bus_alerts\<close> into \<open>bus_trips\<close> and \<open>bus_routes\<close>; both
  columns may be NULL.\<close>

definition bus_alerts_fkeys :: "bus_alert \<Rightarrow> db \<Rightarrow> bool" where
  "bus_alerts_fkeys a d \<longleftrightarrow>
     (case a_trip_id a of None \<Rightarrow> True | Some t \<Rightarrow> t \<in> set (map bt_id (bus_trips d))) \<and>
     (case a_route_id a of None \<Rightarrow> True | Some r \<Rightarrow> r \<in> set (map r_id (bus_routes d)))"

definition insert_bus_alerts :: "session \<Rightarrow> bus_alert \<Rightarrow> db \<Rightarrow> pg_error + db" where
  "insert_bus_alerts s row d =
     (if \<not> bus_alerts_manage s row then Inl RlsViolation
      else if \<not> bus_alerts_fkeys row d then Inl ForeignKeyViolation
      else create_bus_alert_feed_item s row (d\<lparr>bus_alerts := bus_alerts d @ [row]\<rparr>))"

definition alert_text :: "alert_kind \<Rightarrow> string" where
  "alert_text k = (case k of
       Delay \<Rightarrow> ''delay'' | Breakdown \<Rightarrow> ''breakdown'' | Accident \<Rightarrow> ''accident''
     | RouteChange \<Rightarrow> ''route_change'' | Weather \<Rightarrow> ''weather'' | Emergency \<Rightarrow> ''emergency''
     | StudentIncident \<Rightarrow> ''student_incident'' | Other \<Rightarrow> ''other'')"

text \<open>The row \<open>handleSendAlert\<close> sends for a loaded trip with its bus and route;
  \<open>resolved\<close> and \<open>created_at\<close> take their defaults.\<close>

definition alert_row ::
  "session \<Rightarrow> timestamp \<Rightarrow> uuid \<Rightarrow> bus_trip \<Rightarrow> bus_route \<Rightarrow> bus \<Rightarrow> alert_kind \<Rightarrow> bus_alert" where
  "alert_row s server_now tid t r b alertType =
     \<lparr>a_school_id = get_user_school_id s,
      a_trip_id = Some tid,
      a_route_id = Some (bt_route_id t),
      alert_type = alertType,
      severity = (if alertType = Delay then Info else Warning),
      a_title = ''Bus '' @ bus_number b @ '' - '' @
                (if alertType = Delay then ''Running Late'' else ''Issue Reported''),
      a_message = Some (''Route '' @ route_number r @ '' has reported a '' @ alert_text alertType),
      resolved = False,
      a_created_by = Some (auth_uid s),
      a_created_at = server_now\<rparr>"

datatype alert_outcome = AlertSent | FailedToSendAlert

text \<open>\<open>handleSendAlert\<close>, on the screen of a loaded trip (the screen renders nothing
  else while \<open>trip\<close> is \<open>null\<close>). Reading \<open>trip.bus.bus_number\<close> or
  \<open>trip.route.route_number\<close> of a missing embedded row throws, which the handler
  catches; an error of the store is returned as a value, which the handler does not
  read before it reports success.\<close>

definition handleSendAlert ::
  "session \<Rightarrow> timestamp \<Rightarrow> uuid \<Rightarrow> Trip \<Rightarrow> alert_kind \<Rightarrow> db \<Rightarrow> alert_outcome \<times> db" where
  "handleSendAlert s server_now tid trp alertType d =
     (case (t_bus trp, t_route trp) of
        (Some b, Some r) \<Rightarrow>
          (AlertSent,
           committed d (insert_bus_alerts s
             (alert_row s server_now tid (t_row trp) r b alertType) d))
      | _ \<Rightarrow> (FailedToSendAlert, d))"

section \<open>Starting a trip\<close>

text \<open>Interface \<open>BusRoute\<close> of the home screen: a route row with its embedded bus
  (\<open>bus_number\<close>, \<open>color\<close>).\<close>

record embedded_bus =
  eb_bus_number :: string
  eb_color :: "string option"

record BusRoute =
  br_id :: uuid
  br_route_number :: string
  br_start_time :: "string option"
  br_bus :: "embedded_bus option"









section \<open>A session on the trip screen\<close>

text \<open>The state of the screen when it mounts (the initial values of its state hooks),
  and the first load.\<close>

definition initial_screen :: screen where
  "initial_screen = \<lparr>trip = None, stops = [], students = [], currentStopIndex = 0\<rparr>"

definition mount :: "session \<Rightarrow> uuid \<Rightarrow> db \<Rightarrow> screen \<times> db" where
  "mount s tid d = (fetchTripData s tid d initial_screen, d)"

text \<open>What happens on the screen: the driver presses the action of the current stop,
  an item of the stop list, or a student's row; the device reports a position; the
  driver sends an alert. Each handler has finished, reload included, before the next
  one starts.\<close>

datatype action =
  PressStopAction timestamp
  | PressStopItem nat
  | PressStudent timestamp uuid
  | ReportPosition timestamp timestamp LocationObject
  | SendAlert timestamp alert_kind

fun act :: "session \<Rightarrow> uuid \<Rightarrow> action \<Rightarrow> screen \<times> db \<Rightarrow> screen \<times> db" where
  "act s tid (PressStopAction now) st = pressStopAction s now tid st"
| "act s tid (PressStopItem index) st = pressStopItem index st"
| "act s tid (PressStudent now sid) st = pressStudent s now tid sid st"
| "act s tid (ReportPosition device_now now location) st =
     (fst st, updateLocation s device_now now tid location (snd st))"
| "act s tid (SendAlert now k) st =
     (case trip (fst st) of
        None \<Rightarrow> st
      | Some trp \<Rightarrow> (fst st, snd (handleSendAlert s now tid trp k (snd st))))"

definition run :: "session \<Rightarrow> uuid \<Rightarrow> action list \<Rightarrow> screen \<times> db \<Rightarrow> screen \<times> db" where
  "run s tid acts st = fold (act s tid) acts st"

text \<open>The flags of the loaded stops agree with the log of the store.\<close>

definition screen_synced :: "uuid \<Rightarrow> screen \<Rightarrow> db \<Rightarrow> bool" where
  "screen_synced tid ui d \<longleftrightarrow>
     (\<forall>b \<in> set (stops ui).
        (arrived b \<longleftrightarrow> Arrived \<in> set (stop_log tid (stop_id (bs_row b)) d)) \<and>
        (departed b \<longleftrightarrow> Departed \<in> set (stop_log tid (stop_id (bs_row b)) d)))"

text \<open>The log of a stop is empty, an arrival, or an arrival followed by a departure.\<close>

definition stop_log_ok :: "stop_event_type list \<Rightarrow> bool" where
  "stop_log_ok l \<longleftrightarrow> l = [] \<or> l = [Arrived] \<or> l = [Arrived, Departed]"

text \<open>The state a session keeps: \<open>id\<close> is the primary key of \<open>bus_trips\<close>, the log of
  every stop of the trip is in order, and the screen shows it.\<close>

definition session_inv :: "uuid \<Rightarrow> screen \<times> db \<Rightarrow> bool" where
  "session_inv tid st \<longleftrightarrow>
     distinct (map bt_id (bus_trips (snd st))) \<and>
     (\<forall>sid. stop_log_ok (stop_log tid sid (snd st))) \<and>
     screen_synced tid (fst st) (snd st)"

text \<open>The columns of a trip no handler of the screen writes.\<close>

definition trip_key :: "bus_trip \<Rightarrow> uuid \<times> uuid \<times> uuid \<times> uuid \<times> trip_kind" where
  "trip_key t = (bt_id t, bt_school_id t, bt_driver_id t, bt_route_id t, trip_type t)"

text \<open>What no handler of the screen changes: those columns of the trips, the roster,
  the students and their guardians.\<close>

definition same_registry :: "db \<Rightarrow> db \<Rightarrow> bool" where
  "same_registry d d' \<longleftrightarrow>
     map trip_key (bus_trips d') = map trip_key (bus_trips d) \<and>
     student_bus_assignments d' = student_bus_assignments d \<and>
     students_table d' = students_table d \<and>
     student_guardians d' = student_guardians d"

text \<open>The student list a load by this user sets, if it sets one: one trip row is shown
  and no embedded student of the roster is \<open>null\<close>.\<close>

definition loaded_students :: "session \<Rightarrow> uuid \<Rightarrow> db \<Rightarrow> Student list option" where
  "loaded_students s tid d =
     (case filter (\<lambda>t. bt_id t = tid \<and> (bus_trips_view s t \<or> bus_trips_driver s t))
             (bus_trips d) of
        [tripData] \<Rightarrow>
          if \<forall>a \<in> set (assignmentsData s d tripData). embedded_student s d a \<noteq> None
          then Some (studentsData (trip_type tripData)
                 (assignmentsData s d tripData)
                 (filter (\<lambda>x. s_trip_id x = tid \<and> student_bus_scans_select s d x)
                    (student_bus_scans d)))
          else None
      | _ \<Rightarrow> None)"

text \<open>The state a session keeps about the student list: the scan policy admits the
  user, and the list is empty or is the one a load sets.\<close>

definition roster_inv :: "session \<Rightarrow> uuid \<Rightarrow> screen \<times> db \<Rightarrow> bool" where
  "roster_inv s tid st \<longleftrightarrow>
     trip_rows_driver s (snd st) tid \<and>
     (students (fst st) = [] \<or> loaded_students s tid (snd st) = Some (students (fst st)))"

text \<open>The rows the handlers send to the store, and the trip row after each update.\<close>

definition arrived_event :: "timestamp \<Rightarrow> uuid \<Rightarrow> BusStop \<Rightarrow> stop_event" where
  "arrived_event server_now tid stop =
     \<lparr>e_trip_id = tid, e_stop_id = stop_id (bs_row stop), event_type = Arrived,
      e_scheduled_time = stop_scheduled_time (bs_row stop), e_actual_time = server_now,
      students_boarded = 0, students_exited = 0\<rparr>"

definition departed_event :: "timestamp \<Rightarrow> uuid \<Rightarrow> BusStop \<Rightarrow> int \<Rightarrow> int \<Rightarrow> stop_event" where
  "departed_event server_now tid stop studentsBoarded studentsExited =
     \<lparr>e_trip_id = tid, e_stop_id = stop_id (bs_row stop), event_type = Departed,
      e_scheduled_time = None, e_actual_time = server_now,
      students_boarded = studentsBoarded, students_exited = studentsExited\<rparr>"

definition history_row :: "timestamp \<Rightarrow> uuid \<Rightarrow> LocationObject \<Rightarrow> location_fix" where
  "history_row server_now tid location =
     \<lparr>h_trip_id = tid, h_latitude = latitude location, h_longitude = longitude location,
      h_speed = speed location, h_heading = heading location,
      h_accuracy = accuracy location, h_recorded_at = server_now\<rparr>"

definition snapshot :: "timestamp \<Rightarrow> LocationObject \<Rightarrow> bus_trip \<Rightarrow> bus_trip" where
  "snapshot device_now location t =
     t\<lparr>current_latitude := Some (latitude location),
       current_longitude := Some (longitude location),
       current_speed := speed location,
       current_heading := heading location,
       last_location_update := Some device_now\<rparr>"

text \<open>\<open>on_rows s tid f\<close> applies \<open>f\<close> to the trip rows an update of trip \<open>tid\<close>
  by user \<open>s\<close> reaches.\<close>

definition on_rows :: "session \<Rightarrow> uuid \<Rightarrow> (bus_trip \<Rightarrow> bus_trip) \<Rightarrow> bus_trip list \<Rightarrow> bus_trip list" where
  "on_rows s tid f ts = map (\<lambda>t. if bt_id t = tid \<and> bus_trips_driver s t then f t else t) ts"

section \<open>A school with one route, for the worked examples\<close>

definition driver7 :: session where
  "driver7 = \<lparr>auth_uid = 7, get_user_school_id = 10, get_user_role = Driver\<rparr>"

definition admin9 :: session where
  "admin9 = \<lparr>auth_uid = 9, get_user_school_id = 10, get_user_role = Admin\<rparr>"

definition trip1 :: bus_trip where
  "trip1 = \<lparr>bt_id = 1, bt_school_id = 10, bt_route_id = 20, bt_bus_id = 30, bt_driver_id = 7,
     trip_date = 100, trip_type = Morning, status = InProgress,
     scheduled_start = None, actual_start = Some 5, actual_end = None,
     current_latitude = None, current_longitude = None, current_speed = None,
     current_heading = None, last_location_update = None,
     current_stop_index = 0, students_on_board = 0\<rparr>"

definition stop_no :: "nat \<Rightarrow> bus_stop" where
  "stop_no n = \<lparr>stop_id = 50 + n, stop_school_id = 10, stop_route_id = 20, stop_number = int n,
     stop_scheduled_time = None, stop_active = True\<rparr>"

definition db1 :: db where
  "db1 = \<lparr>students_table = [\<lparr>sd_id = 40, sd_school_id = 10\<rparr>],
     student_guardians = [],
     buses = [\<lparr>b_id = 30, b_school_id = 10, bus_number = ''12''\<rparr>],
     bus_routes = [\<lparr>r_id = 20, r_school_id = 10, route_number = ''R1'', r_name = ''North''\<rparr>],
     bus_stops = [stop_no 1, stop_no 2, stop_no 3],
     student_bus_assignments =
       [\<lparr>as_school_id = 10, as_student_id = 40, morning_route_id = Some 20,
         morning_stop_id = Some 51,
         afternoon_route_id = None, afternoon_stop_id = None, as_active = True\<rparr>],
     bus_trips = [trip1],
     bus_location_history = [],
     bus_stop_events = [],
     student_bus_scans = [],
     bus_alerts = [],
     feed_items = []\<rparr>"

text \<open>The session of the admin who opens the trip screen on the first store and presses
  the row of student 40 twice.\<close>

definition session40 :: "screen \<times> db" where
  "session40 = run admin9 1 [PressStudent 3 40, PressStudent 4 40] (mount admin9 1 db1)"

definition st40 :: Student where
  "st40 = \<lparr>st_id = 40, st_stop_id = Some 51, boarded = True\<rparr>"

definition ui0 :: screen where
  "ui0 = \<lparr>trip = None, stops = [], students = [], currentStopIndex = 0\<rparr>"

text \<open>Two positions of the bus, the second taken later than the first.\<close>

definition fix_at :: "timestamp \<Rightarrow> decimal \<Rightarrow> LocationObject" where
  "fix_at ts lat = \<lparr>latitude = lat, longitude = 5, speed = Some 3, heading = None,
     accuracy = Some 10, timestamp = ts\<rparr>"

text \<open>A position whose accuracy is 12000 m.\<close>

definition coarse_fix :: LocationObject where
  "coarse_fix = \<lparr>latitude = 3, longitude = 5, speed = Some 3, heading = None,
     accuracy = Some 1200000, timestamp = 600\<rparr>"

text \<open>The store of the example once the trip is completed.\<close>

definition db_completed :: db where
  "db_completed = db1\<lparr>bus_trips := [trip1\<lparr>status := Completed, actual_end := Some 20\<rparr>]\<rparr>"

definition stop3 :: BusStop where
  "stop3 = \<lparr>bs_row = stop_no 3, arrived = False, departed = False\<rparr>"

text \<open>The trip of the example as the trip screen loads it, the route as the home screen
  loads it, and the store with the same trip still scheduled.\<close>

definition loaded1 :: Trip where
  "loaded1 = \<lparr>t_row = trip1,
     t_route = Some \<lparr>r_id = 20, r_school_id = 10, route_number = ''R1'', r_name = ''North''\<rparr>,
     t_bus = Some \<lparr>b_id = 30, b_school_id = 10, bus_number = ''12''\<rparr>\<rparr>"

definition route20 :: BusRoute where
  "route20 = \<lparr>br_id = 20, br_route_number = ''R1'', br_start_time = None,
     br_bus = Some \<lparr>eb_bus_number = ''12'', eb_color = None\<rparr>\<rparr>"

definition db_scheduled :: db where
  "db_scheduled = db1\<lparr>bus_trips := [trip1\<lparr>status := Scheduled, actual_start := None\<rparr>]\<rparr>"

section \<open>Updates of a trip row\<close>

lemmas example_defs = db1_def st40_def trip1_def driver7_def admin9_def ui0_def stop_no_def
  fix_at_def coarse_fix_def db_completed_def stop3_def loaded1_def route20_def db_scheduled_def

text \<open>An update that keeps the school and the driver of a trip and does not move it
  into \<open>in_progress\<close> passes the policy check and fires no feed item.\<close>

lemma update_bus_trips_keep:
  assumes "\<And>t. status (upd t) = InProgress \<Longrightarrow> status t = InProgress"
    and "\<And>t. bt_school_id (upd t) = bt_school_id t"
    and "\<And>t. bt_driver_id (upd t) = bt_driver_id t"
  shows "update_bus_trips s tid upd d =
     Inr (d\<lparr>bus_trips :=
            map (\<lambda>t. if bt_id t = tid \<and> bus_trips_driver s t then upd t else t) (bus_trips d)\<rparr>)"
proof (cases "find (\<lambda>t. bt_id t = tid \<and> bus_trips_driver s t) (bus_trips d)")
  case None
  then have "\<forall>t \<in> set (bus_trips d). \<not> (bt_id t = tid \<and> bus_trips_driver s t)"
    by (simp add: find_None_iff)
  then have "map (\<lambda>t. if bt_id t = tid \<and> bus_trips_driver s t then upd t else t) (bus_trips d)
      = bus_trips d"
    by (intro map_idI) auto
  with None show ?thesis by (simp add: update_bus_trips_def)
next
  case (Some old)
  then have "bus_trips_driver s old"
    by (auto simp: find_Some_iff)
  then have chk: "bus_trips_driver s (upd old)"
    using assms(2,3) by (simp add: bus_trips_driver_def)
  have "\<not> (status (upd old) = InProgress \<and> status old = Scheduled)"
    using assms(1) by auto
  with Some chk show ?thesis
    by (auto simp: update_bus_trips_def create_bus_feed_item_def)
qed

lemma trip_rows_driver_find:
  assumes "trip_rows_driver s d tid"
  shows "\<exists>t \<in> set (bus_trips d). bt_id t = tid \<and> bus_trips_driver s t"
  using assms by (auto simp: trip_rows_driver_def bus_trips_driver_def bus_trips_view_def)

section \<open>Occupancy: the scan log and the count\<close>

lemma signed_sum_counts:
  "coalesce (sql_sum (map (\<lambda>x. if scan_type x = Board then 1 else - 1)
       (filter (\<lambda>x. s_trip_id x = tid) xs))) 0 =
   int (length (filter (\<lambda>x. s_trip_id x = tid \<and> scan_type x = Board) xs)) -
   int (length (filter (\<lambda>x. s_trip_id x = tid \<and> scan_type x = Exit) xs))"
proof -
  have "sum_list (map (\<lambda>x. if scan_type x = Board then 1 else - 1)
       (filter (\<lambda>x. s_trip_id x = tid) xs)) =
   int (length (filter (\<lambda>x. s_trip_id x = tid \<and> scan_type x = Board) xs)) -
   int (length (filter (\<lambda>x. s_trip_id x = tid \<and> scan_type x = Exit) xs))"
  proof (induction xs)
    case Nil
    then show ?case by simp
  next
    case (Cons x xs)
    then show ?case by (cases "scan_type x") auto
  qed
  then show ?thesis
    by (auto simp: coalesce_def sql_sum_def)
qed

text \<open>What one call of the handler does to the store, for a user the scan policy admits.\<close>

lemma handleScanStudent_eq:
  assumes "trip_rows_driver s d tid"
  shows "handleScanStudent s now tid ui st k d =
     d\<lparr>student_bus_scans := student_bus_scans d @ [scan_row now tid ui st k],
       bus_trips := map (\<lambda>t. if bt_id t = tid \<and> bus_trips_driver s t
          then t\<lparr>students_on_board := signed_count tid d + (if k = Board then 1 else - 1)\<rparr> else t)
          (bus_trips d)\<rparr>"
proof -
  let ?d1 = "d\<lparr>student_bus_scans := student_bus_scans d @ [scan_row now tid ui st k]\<rparr>"
  have tid: "s_trip_id (scan_row now tid ui st k) = tid"
    by (simp add: scan_row_def)
  have cnt: "coalesce (sql_sum (map (\<lambda>x. if scan_type x = Board then 1 else - 1)
            (filter (\<lambda>x. s_trip_id x = tid) (student_bus_scans ?d1)))) 0
      = signed_count tid d + (if k = Board then 1 else - 1)"
    unfolding signed_sum_counts
    by (cases k) (simp_all add: signed_count_def scan_count_def scan_row_def)
  have "update_trip_student_count s (scan_row now tid ui st k) ?d1 =
     Inr (?d1\<lparr>bus_trips := map (\<lambda>t. if bt_id t = tid \<and> bus_trips_driver s t
          then t\<lparr>students_on_board := signed_count tid d + (if k = Board then 1 else - 1)\<rparr> else t)
          (bus_trips ?d1)\<rparr>)"
    unfolding update_trip_student_count_def tid cnt
    by (rule update_bus_trips_keep) simp_all
  moreover have "handleScanStudent s now tid ui st k d =
     (case insert_student_bus_scans s (scan_row now tid ui st k) d of Inl e \<Rightarrow> d | Inr d' \<Rightarrow> d')"
    by (simp add: handleScanStudent_def scan_row_def)
  ultimately show ?thesis
    using assms tid
    by (simp add: insert_student_bus_scans_def)
qed






lemma scans_after_scan:
  assumes "trip_rows_driver s d tid"
  shows "student_bus_scans (handleScanStudent s now tid ui st k d) =
     student_bus_scans d @ [scan_row now tid ui st k]"
  unfolding handleScanStudent_eq [OF assms] by simp







section \<open>The rows of the trip screen\<close>

lemma boarded_studentsData:
  assumes "st \<in> set (studentsData tt as xs)"
  shows "boarded st \<longleftrightarrow> st_id st \<in> boardedStudents xs"
  using assms by (auto simp: studentsData_def)

lemma boardedStudents_iff:
  "sid \<in> boardedStudents (filter (\<lambda>x. s_trip_id x = tid) xs) \<longleftrightarrow>
     (\<exists>x \<in> set xs. s_trip_id x = tid \<and> s_student_id x = sid \<and> scan_type x = Board)"
  by (auto simp: boardedStudents_def)

lemma studentsAtCurrentStop_subset:
  "set (studentsAtCurrentStop ui) \<subseteq> set (students ui)"
  by (auto simp: studentsAtCurrentStop_def split: option.splits)

lemma pressStudent_found:
  assumes "find (\<lambda>st. st_id st = sid) (studentsAtCurrentStop ui) = Some st"
  shows "pressStudent s now tid sid (ui, d) =
     (fetchTripData s tid
        (handleScanStudent s now tid ui st (if boarded st then Exit else Board) d) ui,
      handleScanStudent s now tid ui st (if boarded st then Exit else Board) d)"
  using assms by (simp add: pressStudent_def Let_def)

section \<open>What the other handlers write\<close>

lemma update_bus_trips_on_rows:
  assumes "\<And>t. status (upd t) = InProgress \<Longrightarrow> status t = InProgress"
    and "\<And>t. bt_school_id (upd t) = bt_school_id t"
    and "\<And>t. bt_driver_id (upd t) = bt_driver_id t"
  shows "committed d (update_bus_trips s tid upd d) = d\<lparr>bus_trips := on_rows s tid upd (bus_trips d)\<rparr>"
  by (simp add: update_bus_trips_keep [OF assms] committed_def on_rows_def)

lemma on_rows_mem:
  assumes "t \<in> set (on_rows s tid f ts)" "bt_id t = tid" "bus_trips_driver s t"
    and "\<And>t. bt_id (f t) = bt_id t"
  shows "\<exists>t0 \<in> set ts. t = f t0"
proof -
  from assms(1) obtain t0 where t0: "t0 \<in> set ts"
    and t: "t = (if bt_id t0 = tid \<and> bus_trips_driver s t0 then f t0 else t0)"
    unfolding on_rows_def by auto
  show ?thesis
  proof (cases "bt_id t0 = tid \<and> bus_trips_driver s t0")
    case True
    with t t0 show ?thesis by auto
  next
    case False
    with t assms(2,3) show ?thesis by simp
  qed
qed

lemma on_rows_ex:
  assumes "trip_rows_driver s d tid"
    and "\<And>t. bt_id (f t) = bt_id t"
    and "\<And>t. bt_school_id (f t) = bt_school_id t"
    and "\<And>t. bt_driver_id (f t) = bt_driver_id t"
  shows "\<exists>t \<in> set (on_rows s tid f (bus_trips d)). bt_id t = tid \<and> bus_trips_driver s t"
proof -
  from trip_rows_driver_find [OF assms(1)]
  obtain t where t: "t \<in> set (bus_trips d)" "bt_id t = tid" "bus_trips_driver s t"
    by blast
  have "f t \<in> set (on_rows s tid f (bus_trips d))"
    unfolding on_rows_def set_map using t by (intro image_eqI [of _ _ t]) simp_all
  moreover have "bt_id (f t) = tid"
    using t(2) assms(2) by simp
  moreover have "bus_trips_driver s (f t)"
    using t(3) assms(3,4) by (simp add: bus_trips_driver_def)
  ultimately show ?thesis by blast
qed

lemma bex_set_map:
  "(\<exists>t \<in> set (map g xs). P t) \<longleftrightarrow> (\<exists>t \<in> set xs. P (g t))"
  by auto

lemma trip_rows_driver_on_rows:
  assumes "bus_trips d' = on_rows s tid f (bus_trips d)"
    and "\<And>t. bt_id (f t) = bt_id t"
    and "\<And>t. bt_school_id (f t) = bt_school_id t"
    and "\<And>t. bt_driver_id (f t) = bt_driver_id t"
  shows "trip_rows_driver s d' tid' = trip_rows_driver s d tid'"
proof -
  let ?g = "\<lambda>t. if bt_id t = tid \<and> bus_trips_driver s t then f t else t"
  have g: "((bus_trips_view s (?g t) \<or> bus_trips_driver s (?g t)) \<and>
        bt_id (?g t) = tid' \<and> (bt_driver_id (?g t) = auth_uid s \<or> get_user_role s = Admin)) \<longleftrightarrow>
      ((bus_trips_view s t \<or> bus_trips_driver s t) \<and>
        bt_id t = tid' \<and> (bt_driver_id t = auth_uid s \<or> get_user_role s = Admin))" for t
    by (cases "bt_id t = tid \<and> bus_trips_driver s t")
      (simp_all add: bus_trips_view_def bus_trips_driver_def assms(2-4))
  have "trip_rows_driver s d' tid' \<longleftrightarrow>
      (\<exists>t \<in> set (bus_trips d). (bus_trips_view s (?g t) \<or> bus_trips_driver s (?g t)) \<and>
        bt_id (?g t) = tid' \<and> (bt_driver_id (?g t) = auth_uid s \<or> get_user_role s = Admin))"
    unfolding trip_rows_driver_def assms(1) on_rows_def bex_set_map ..
  also have "\<dots> \<longleftrightarrow> trip_rows_driver s d tid'"
    unfolding trip_rows_driver_def g ..
  finally show ?thesis .
qed

lemma handleArriveAtStop_eq:
  assumes "trip_rows_driver s d tid"
  shows "handleArriveAtStop s now tid stop d =
     d\<lparr>bus_stop_events := bus_stop_events d @ [arrived_event now tid stop],
       bus_trips := on_rows s tid (\<lambda>t. t\<lparr>current_stop_index := stop_number (bs_row stop)\<rparr>)
          (bus_trips d)\<rparr>"
proof -
  let ?d1 = "d\<lparr>bus_stop_events := bus_stop_events d @ [arrived_event now tid stop]\<rparr>"
  let ?upd = "\<lambda>t. t\<lparr>current_stop_index := stop_number (bs_row stop)\<rparr>"
  have ins: "committed d (insert_bus_stop_events s (arrived_event now tid stop) d) = ?d1"
    using assms by (simp add: insert_bus_stop_events_def committed_def arrived_event_def)
  have upd: "committed ?d1 (update_bus_trips s tid ?upd ?d1) =
      ?d1\<lparr>bus_trips := on_rows s tid ?upd (bus_trips ?d1)\<rparr>"
    by (rule update_bus_trips_on_rows) simp_all
  have "handleArriveAtStop s now tid stop d =
     (let d1 = committed d (insert_bus_stop_events s (arrived_event now tid stop) d)
      in committed d1 (update_bus_trips s tid ?upd d1))"
    by (simp add: handleArriveAtStop_def arrived_event_def)
  then show ?thesis
    unfolding ins Let_def upd by simp
qed


lemma location_fits_history:
  assumes "location_fits loc"
  shows "history_fits (history_row sn tid loc)"
  using assms by (simp add: location_fits_def snapshot_fits_def history_fits_def history_row_def)

lemma updateLocation_eq:
  assumes "trip_rows_driver s d tid" and "location_fits loc"
  shows "updateLocation s dn sn tid loc d =
     d\<lparr>bus_trips := on_rows s tid (snapshot dn loc) (bus_trips d),
       bus_location_history := bus_location_history d @ [history_row sn tid loc]\<rparr>"
proof -
  let ?d1 = "d\<lparr>bus_trips := on_rows s tid (snapshot dn loc) (bus_trips d)\<rparr>"
  have fits: "snapshot_fits loc"
    using assms(2) by (simp add: location_fits_def)
  have row: "h_trip_id (history_row sn tid loc) = tid"
    by (simp add: history_row_def)
  have d1: "committed d (update_bus_trips s tid (snapshot dn loc) d) = ?d1"
    by (rule update_bus_trips_on_rows) (simp_all add: snapshot_def)
  have "trip_rows_driver s ?d1 tid"
    using assms(1)
    by (subst trip_rows_driver_on_rows [of _ s tid "snapshot dn loc" d])
      (simp_all add: snapshot_def)
  then have "committed ?d1 (insert_bus_location_history s (history_row sn tid loc) ?d1) =
      ?d1\<lparr>bus_location_history := bus_location_history d @ [history_row sn tid loc]\<rparr>"
    using location_fits_history [OF assms(2), of sn tid] row
    by (simp add: insert_bus_location_history_def committed_def)
  moreover have "updateLocation s dn sn tid loc d =
     (let d1 = committed d (update_bus_trips s tid (snapshot dn loc) d)
      in committed d1 (insert_bus_location_history s (history_row sn tid loc) d1))"
    using fits by (simp add: updateLocation_def snapshot_def [abs_def] history_row_def)
  ultimately show ?thesis
    by (simp add: d1 Let_def)
qed

lemma handleEndTrip_eq:
  "handleEndTrip s dn tid True d =
     d\<lparr>bus_trips := on_rows s tid (\<lambda>t. t\<lparr>status := Completed, actual_end := Some dn\<rparr>)
        (bus_trips d)\<rparr>"
proof -
  have "committed d (update_bus_trips s tid
          (\<lambda>t. t\<lparr>status := Completed, actual_end := Some dn\<rparr>) d) =
     d\<lparr>bus_trips := on_rows s tid (\<lambda>t. t\<lparr>status := Completed, actual_end := Some dn\<rparr>)
        (bus_trips d)\<rparr>"
    by (rule update_bus_trips_on_rows) simp_all
  then show ?thesis
    by (simp add: handleEndTrip_def)
qed


section \<open>The current stop of a trip\<close>

text \<open>
  Claim C5, as the code has it. When the trip policy admits the user,
  \<open>handleArriveAtStop\<close> stores the stop number of the stop as the trip's
  \<open>current_stop_index\<close> whatever the value was before; the index does not decrease
  exactly when the stop number is at least the old value.
\<close>

theorem arrival_overwrites_current_stop_index:
  assumes "trip_rows_driver s d tid"
  shows "let d' = handleArriveAtStop s now tid stop d in
      (\<exists>t \<in> set (bus_trips d'). bt_id t = tid \<and> bus_trips_driver s t) \<and>
      (\<forall>t \<in> set (bus_trips d'). bt_id t = tid \<and> bus_trips_driver s t \<longrightarrow>
         current_stop_index t = stop_number (bs_row stop)) \<and>
      map current_stop_index (bus_trips d') =
        map (\<lambda>t. if bt_id t = tid \<and> bus_trips_driver s t then stop_number (bs_row stop)
                 else current_stop_index t) (bus_trips d)"
proof -
  let ?upd = "\<lambda>t. t\<lparr>current_stop_index := stop_number (bs_row stop)\<rparr>"
  have trips: "bus_trips (handleArriveAtStop s now tid stop d) = on_rows s tid ?upd (bus_trips d)"
    unfolding handleArriveAtStop_eq [OF assms] by simp
  have ex: "\<exists>t \<in> set (on_rows s tid ?upd (bus_trips d)). bt_id t = tid \<and> bus_trips_driver s t"
    by (rule on_rows_ex [OF assms]) simp_all
  have all: "current_stop_index t = stop_number (bs_row stop)"
    if "t \<in> set (on_rows s tid ?upd (bus_trips d))" "bt_id t = tid" "bus_trips_driver s t" for t
    using on_rows_mem [OF that] by auto
  have m: "map current_stop_index (on_rows s tid ?upd (bus_trips d)) =
        map (\<lambda>t. if bt_id t = tid \<and> bus_trips_driver s t then stop_number (bs_row stop)
                 else current_stop_index t) (bus_trips d)"
    by (simp add: on_rows_def comp_def if_distrib [of current_stop_index] cong: if_cong)
  show ?thesis
    unfolding Let_def trips using ex all m by blast
qed

theorem arrival_overwrites_current_stop_index_witness:
  "trip_rows_driver driver7 db1 1 \<and>
   (let d' = handleArriveAtStop driver7 11 1 \<lparr>bs_row = stop_no 3, arrived = False, departed = False\<rparr> db1 in
      (\<exists>t \<in> set (bus_trips d'). bt_id t = 1 \<and> bus_trips_driver driver7 t) \<and>
      (\<forall>t \<in> set (bus_trips d'). bt_id t = 1 \<and> bus_trips_driver driver7 t \<longrightarrow>
         current_stop_index t = stop_number (bs_row \<lparr>bs_row = stop_no 3, arrived = False, departed = False\<rparr>)) \<and>
      map current_stop_index (bus_trips d') =
        map (\<lambda>t. if bt_id t = 1 \<and> bus_trips_driver driver7 t
                 then stop_number (bs_row \<lparr>bs_row = stop_no 3, arrived = False, departed = False\<rparr>)
                 else current_stop_index t) (bus_trips db1))"
proof -
  have h: "trip_rows_driver driver7 db1 1"
    by (simp add: trip_rows_driver_def bus_trips_view_def bus_trips_driver_def example_defs)
  show ?thesis
    using h arrival_overwrites_current_stop_index [OF h, of 11
      "\<lparr>bs_row = stop_no 3, arrived = False, departed = False\<rparr>"]
    by blast
qed

text \<open>
  The claim as the specification words it fails: the driver selects the third stop and
  arrives there, then selects the first stop and arrives there; the index goes from 3
  down to 1.
\<close>

theorem current_stop_index_decreases:
  "map current_stop_index (bus_trips (snd
     (pressStopAction driver7 11 1 (pressStopItem 2 (fetchTripData driver7 1 db1 ui0, db1))))) = [3] \<and>
   map current_stop_index (bus_trips (snd
     (pressStopAction driver7 12 1 (pressStopItem 0
       (pressStopAction driver7 11 1 (pressStopItem 2 (fetchTripData driver7 1 db1 ui0, db1))))))) = [1]"
  by code_simp

section \<open>The end of a trip and the position snapshot\<close>

text \<open>
  Claim C7, as the code has it. When the trip policy admits the user and the dialog is
  confirmed, \<open>handleEndTrip\<close> sets the trip's status to \<open>completed\<close> and its
  \<open>actual_end\<close> to the device's time, and writes nothing else: the store is the one
  before with those two columns of the trip replaced. The stop events are the same as
  before, so a stop without an arrival gets no \<open>skipped\<close> event.
\<close>

theorem end_trip_completes_and_logs_no_stop_event:
  assumes "trip_rows_driver s d tid"
  shows "let d' = handleEndTrip s now tid True d in
      d' = d\<lparr>bus_trips :=
                map (\<lambda>t. if bt_id t = tid \<and> bus_trips_driver s t
                         then t\<lparr>status := Completed, actual_end := Some now\<rparr> else t)
                  (bus_trips d)\<rparr> \<and>
      (\<exists>t \<in> set (bus_trips d'). bt_id t = tid \<and> bus_trips_driver s t) \<and>
      (\<forall>t \<in> set (bus_trips d'). bt_id t = tid \<and> bus_trips_driver s t \<longrightarrow>
         status t = Completed \<and> actual_end t = Some now) \<and>
      bus_stop_events d' = bus_stop_events d"
proof -
  let ?upd = "\<lambda>t. t\<lparr>status := Completed, actual_end := Some now\<rparr>"
  have ex: "\<exists>t \<in> set (on_rows s tid ?upd (bus_trips d)). bt_id t = tid \<and> bus_trips_driver s t"
    by (rule on_rows_ex [OF assms]) simp_all
  have all: "status t = Completed \<and> actual_end t = Some now"
    if "t \<in> set (on_rows s tid ?upd (bus_trips d))" "bt_id t = tid" "bus_trips_driver s t" for t
    using on_rows_mem [OF that] by auto
  have frame: "handleEndTrip s now tid True d =
      d\<lparr>bus_trips :=
                map (\<lambda>t. if bt_id t = tid \<and> bus_trips_driver s t
                         then t\<lparr>status := Completed, actual_end := Some now\<rparr> else t)
                  (bus_trips d)\<rparr>"
    by (simp add: handleEndTrip_eq on_rows_def)
  have rows: "(\<exists>t \<in> set (bus_trips (handleEndTrip s now tid True d)).
        bt_id t = tid \<and> bus_trips_driver s t) \<and>
      (\<forall>t \<in> set (bus_trips (handleEndTrip s now tid True d)).
         bt_id t = tid \<and> bus_trips_driver s t \<longrightarrow>
         status t = Completed \<and> actual_end t = Some now) \<and>
      bus_stop_events (handleEndTrip s now tid True d) = bus_stop_events d"
    unfolding handleEndTrip_eq using ex all by simp
  from frame rows show ?thesis
    unfolding Let_def by (rule conjI)
qed

theorem end_trip_completes_and_logs_no_stop_event_witness:
  "trip_rows_driver driver7 db1 1 \<and>
   (let d' = handleEndTrip driver7 20 1 True db1 in
      d' = db1\<lparr>bus_trips :=
                map (\<lambda>t. if bt_id t = 1 \<and> bus_trips_driver driver7 t
                         then t\<lparr>status := Completed, actual_end := Some 20\<rparr> else t)
                  (bus_trips db1)\<rparr> \<and>
      (\<exists>t \<in> set (bus_trips d'). bt_id t = 1 \<and> bus_trips_driver driver7 t) \<and>
      (\<forall>t \<in> set (bus_trips d'). bt_id t = 1 \<and> bus_trips_driver driver7 t \<longrightarrow>
         status t = Completed \<and> actual_end t = Some 20) \<and>
      bus_stop_events d' = bus_stop_events db1)"
proof -
  have h: "trip_rows_driver driver7 db1 1"
    by (simp add: trip_rows_driver_def bus_trips_view_def bus_trips_driver_def example_defs)
  show ?thesis
    using h end_trip_completes_and_logs_no_stop_event [OF h, of 20]
    by blast
qed

text \<open>
  The claim as the specification words it fails: the trip of the example has three
  stops and no arrival; after \<open>handleEndTrip\<close> the trip is completed and the log of
  every stop is still empty.
\<close>

theorem end_trip_skips_no_stop:
  "map status (bus_trips (handleEndTrip driver7 20 1 True db1)) = [Completed] \<and>
   map stop_id (bus_stops db1) = [51, 52, 53] \<and>
   stop_log 1 51 (handleEndTrip driver7 20 1 True db1) = [] \<and>
   stop_log 1 52 (handleEndTrip driver7 20 1 True db1) = [] \<and>
   stop_log 1 53 (handleEndTrip driver7 20 1 True db1) = [] \<and>
   bus_stop_events (handleEndTrip driver7 20 1 True db1) = []"
  by code_simp

text \<open>
  Claim C8, as the code has it. When the trip policy admits the user and the values of
  the fix fit their columns, \<open>updateLocation\<close> overwrites the trip's snapshot with
  the reported position and the device's current time, without reading the stored
  snapshot time or the time of the fix, and appends the fix to the location history;
  it writes nothing else.
\<close>

theorem updateLocation_overwrites_snapshot:
  assumes "trip_rows_driver s d tid" and "location_fits location"
  shows "let d' = updateLocation s device_now server_now tid location d in
      d' = d\<lparr>bus_trips :=
                map (\<lambda>t. if bt_id t = tid \<and> bus_trips_driver s t
                         then snapshot device_now location t else t) (bus_trips d),
              bus_location_history :=
                bus_location_history d @ [history_row server_now tid location]\<rparr> \<and>
      bus_location_history d' =
        bus_location_history d @ [history_row server_now tid location] \<and>
      (\<exists>t \<in> set (bus_trips d'). bt_id t = tid \<and> bus_trips_driver s t) \<and>
      (\<forall>t \<in> set (bus_trips d'). bt_id t = tid \<and> bus_trips_driver s t \<longrightarrow>
         current_latitude t = Some (latitude location) \<and>
         current_longitude t = Some (longitude location) \<and>
         current_speed t = speed location \<and>
         current_heading t = heading location \<and>
         last_location_update t = Some device_now)"
proof -
  let ?upd = "snapshot device_now location"
  have ex: "\<exists>t \<in> set (on_rows s tid ?upd (bus_trips d)). bt_id t = tid \<and> bus_trips_driver s t"
    by (rule on_rows_ex [OF assms(1)]) (simp_all add: snapshot_def)
  have all: "current_latitude t = Some (latitude location) \<and>
         current_longitude t = Some (longitude location) \<and>
         current_speed t = speed location \<and>
         current_heading t = heading location \<and>
         last_location_update t = Some device_now"
    if "t \<in> set (on_rows s tid ?upd (bus_trips d))" "bt_id t = tid" "bus_trips_driver s t" for t
  proof -
    from on_rows_mem [OF that] obtain t0 where "t = snapshot device_now location t0"
      by (auto simp: snapshot_def)
    then show ?thesis by (simp add: snapshot_def)
  qed
  have frame: "updateLocation s device_now server_now tid location d =
      d\<lparr>bus_trips :=
                map (\<lambda>t. if bt_id t = tid \<and> bus_trips_driver s t
                         then snapshot device_now location t else t) (bus_trips d),
              bus_location_history :=
                bus_location_history d @ [history_row server_now tid location]\<rparr>"
    unfolding updateLocation_eq [OF assms] by (simp add: on_rows_def)
  have rows: "bus_location_history (updateLocation s device_now server_now tid location d) =
        bus_location_history d @ [history_row server_now tid location] \<and>
      (\<exists>t \<in> set (bus_trips (updateLocation s device_now server_now tid location d)).
         bt_id t = tid \<and> bus_trips_driver s t) \<and>
      (\<forall>t \<in> set (bus_trips (updateLocation s device_now server_now tid location d)).
         bt_id t = tid \<and> bus_trips_driver s t \<longrightarrow>
         current_latitude t = Some (latitude location) \<and>
         current_longitude t = Some (longitude location) \<and>
         current_speed t = speed location \<and>
         current_heading t = heading location \<and>
         last_location_update t = Some device_now)"
    unfolding updateLocation_eq [OF assms] using ex all by simp
  from frame rows show ?thesis
    unfolding Let_def by (rule conjI)
qed

theorem updateLocation_overwrites_snapshot_witness:
  "trip_rows_driver driver7 db1 1 \<and> location_fits (fix_at 390 1) \<and>
   (let d' = updateLocation driver7 400 502 1 (fix_at 390 1) db1 in
      d' = db1\<lparr>bus_trips :=
                map (\<lambda>t. if bt_id t = 1 \<and> bus_trips_driver driver7 t
                         then snapshot 400 (fix_at 390 1) t else t) (bus_trips db1),
              bus_location_history :=
                bus_location_history db1 @ [history_row 502 1 (fix_at 390 1)]\<rparr> \<and>
      bus_location_history d' =
        bus_location_history db1 @ [history_row 502 1 (fix_at 390 1)] \<and>
      (\<exists>t \<in> set (bus_trips d'). bt_id t = 1 \<and> bus_trips_driver driver7 t) \<and>
      (\<forall>t \<in> set (bus_trips d'). bt_id t = 1 \<and> bus_trips_driver driver7 t \<longrightarrow>
         current_latitude t = Some (latitude (fix_at 390 1)) \<and>
         current_longitude t = Some (longitude (fix_at 390 1)) \<and>
         current_speed t = speed (fix_at 390 1) \<and>
         current_heading t = heading (fix_at 390 1) \<and>
         last_location_update t = Some 400))"
proof -
  have h: "trip_rows_driver driver7 db1 1"
    by (simp add: trip_rows_driver_def bus_trips_view_def bus_trips_driver_def example_defs)
  have f: "location_fits (fix_at 390 1)"
    by (simp add: location_fits_def snapshot_fits_def fits_def fits_opt_def fix_at_def)
  show ?thesis
    using h f updateLocation_overwrites_snapshot [OF h f, of 400 502]
    by blast
qed

text \<open>
  The claim as the specification words it fails twice. The position taken at 490 is
  stored first, with snapshot time 500; the retried request with the position taken at
  390 reaches the store afterwards and overwrites the snapshot with the older position
  and the older time 400; both fixes are in the history. And a fix whose accuracy is
  12000 m overwrites the snapshot but is not in the history: the column
  \<open>accuracy DECIMAL(6, 2)\<close> refuses it.
\<close>

theorem stale_fix_overwrites_snapshot:
  "map last_location_update (bus_trips
     (updateLocation driver7 500 501 1 (fix_at 490 2) db1)) = [Some 500] \<and>
   map current_latitude (bus_trips
     (updateLocation driver7 500 501 1 (fix_at 490 2) db1)) = [Some 2] \<and>
   map last_location_update (bus_trips
     (updateLocation driver7 400 502 1 (fix_at 390 1)
       (updateLocation driver7 500 501 1 (fix_at 490 2) db1))) = [Some 400] \<and>
   map current_latitude (bus_trips
     (updateLocation driver7 400 502 1 (fix_at 390 1)
       (updateLocation driver7 500 501 1 (fix_at 490 2) db1))) = [Some 1] \<and>
   map h_latitude (bus_location_history
     (updateLocation driver7 400 502 1 (fix_at 390 1)
       (updateLocation driver7 500 501 1 (fix_at 490 2) db1))) = [2, 1] \<and>
   accuracy coarse_fix = Some 1200000 \<and>
   map last_location_update (bus_trips
     (updateLocation driver7 600 601 1 coarse_fix db1)) = [Some 600] \<and>
   bus_location_history (updateLocation driver7 600 601 1 coarse_fix db1) = []"
  by code_simp




section \<open>Alerts and their feed items\<close>

lemma create_bus_alert_feed_item_refused:
  "create_bus_alert_feed_item s a d = Inl DatatypeMismatch"
  by (simp add: create_bus_alert_feed_item_def assignable_def case_type_def)

lemma insert_bus_alerts_refused:
  "committed d (insert_bus_alerts s a d) = d"
  by (simp add: insert_bus_alerts_def create_bus_alert_feed_item_refused committed_def)




section \<open>Starting a trip twice\<close>






section \<open>The stop log under a session on the trip screen\<close>

lemma on_rows_ids: 
  assumes "\<And>t. bt_id (f t) = bt_id t"
  shows "map bt_id (on_rows s tid f ts) = map bt_id ts"
  by (simp add: on_rows_def assms)

lemma on_rows_keys: 
  assumes "\<And>t. trip_key (f t) = trip_key t"
  shows "map trip_key (on_rows s tid f ts) = map trip_key ts"
  by (simp add: on_rows_def assms)

lemma keys_ids:
  assumes "map trip_key ts' = map trip_key ts"
  shows "map bt_id ts' = map bt_id ts"
proof -
  have e: "map bt_id xs = map fst (map trip_key xs)" for xs
    by (simp add: trip_key_def)
  show ?thesis
    unfolding e assms by (rule refl)
qed

lemma registry_ids:
  assumes "same_registry d d'"
  shows "map bt_id (bus_trips d') = map bt_id (bus_trips d)"
  using assms by (intro keys_ids) (simp add: same_registry_def)

lemma trip_rows_driver_keys:
  assumes "map trip_key (bus_trips d') = map trip_key (bus_trips d)"
  shows "trip_rows_driver s d' tid = trip_rows_driver s d tid"
proof -
  have e: "trip_rows_driver s x tid \<longleftrightarrow>
      (\<exists>k \<in> set (map trip_key (bus_trips x)).
         fst (snd k) = get_user_school_id s \<and> fst k = tid \<and>
         (fst (snd (snd k)) = auth_uid s \<or> get_user_role s = Admin))" for x
    unfolding bex_set_map
    by (auto simp: trip_rows_driver_def bus_trips_view_def bus_trips_driver_def trip_key_def)
  show ?thesis
    unfolding e assms by (rule refl)
qed

lemma handleScanStudent_rejected:
  assumes "\<not> trip_rows_driver s d tid"
  shows "handleScanStudent s now tid ui st k d = d"
  using assms by (simp add: handleScanStudent_def insert_student_bus_scans_def)

lemma scan_keeps_events:
  "bus_stop_events (handleScanStudent s now tid ui st k d) = bus_stop_events d"
proof (cases "trip_rows_driver s d tid")
  case True
  then show ?thesis unfolding handleScanStudent_eq [OF True] by simp
next
  case False
  then show ?thesis by (simp add: handleScanStudent_rejected)
qed

lemma scan_registry:
  "same_registry d (handleScanStudent s now tid ui st k d)"
proof (cases "trip_rows_driver s d tid")
  case True
  have "map trip_key (on_rows s tid
      (\<lambda>t. t\<lparr>students_on_board := signed_count tid d + (if k = Board then 1 else - 1)\<rparr>)
      (bus_trips d)) = map trip_key (bus_trips d)"
    by (rule on_rows_keys) (simp add: trip_key_def)
  then show ?thesis
    unfolding handleScanStudent_eq [OF True] by (simp add: same_registry_def on_rows_def)
next
  case False
  then show ?thesis by (simp add: handleScanStudent_rejected same_registry_def)
qed

lemma arrive_general:
  "handleArriveAtStop s now tid stop d =
     d\<lparr>bus_stop_events :=
          (if trip_rows_driver s d tid then bus_stop_events d @ [arrived_event now tid stop]
           else bus_stop_events d),
       bus_trips := on_rows s tid (\<lambda>t. t\<lparr>current_stop_index := stop_number (bs_row stop)\<rparr>)
          (bus_trips d)\<rparr>"
proof (cases "trip_rows_driver s d tid")
  case True
  then show ?thesis by (simp add: handleArriveAtStop_eq)
next
  case False
  let ?upd = "\<lambda>t. t\<lparr>current_stop_index := stop_number (bs_row stop)\<rparr>"
  have ins: "committed d (insert_bus_stop_events s (arrived_event now tid stop) d) = d"
    using False by (simp add: insert_bus_stop_events_def committed_def arrived_event_def)
  have upd: "committed d (update_bus_trips s tid ?upd d) =
      d\<lparr>bus_trips := on_rows s tid ?upd (bus_trips d)\<rparr>"
    by (rule update_bus_trips_on_rows) simp_all
  have "handleArriveAtStop s now tid stop d =
     (let d1 = committed d (insert_bus_stop_events s (arrived_event now tid stop) d)
      in committed d1 (update_bus_trips s tid ?upd d1))"
    by (simp add: handleArriveAtStop_def arrived_event_def)
  then show ?thesis
    unfolding ins Let_def upd using False by simp
qed

lemma arrive_registry:
  "same_registry d (handleArriveAtStop s now tid stop d)"
proof -
  have "map trip_key (on_rows s tid
      (\<lambda>t. t\<lparr>current_stop_index := stop_number (bs_row stop)\<rparr>) (bus_trips d)) =
      map trip_key (bus_trips d)"
    by (rule on_rows_keys) (simp add: trip_key_def)
  then show ?thesis
    unfolding arrive_general by (simp add: same_registry_def)
qed

lemma depart_general:
  "handleDepartFromStop s now tid stop b e d =
     d\<lparr>bus_stop_events :=
          (if trip_rows_driver s d tid
           then bus_stop_events d @ [departed_event now tid stop b e]
           else bus_stop_events d)\<rparr>"
  by (simp add: handleDepartFromStop_def insert_bus_stop_events_def committed_def
      departed_event_def)

lemma depart_registry:
  "same_registry d (handleDepartFromStop s now tid stop b e d)"
  unfolding depart_general by (simp add: same_registry_def)

lemma updateLocation_keeps:
  "bus_stop_events (updateLocation s dn sn tid loc d) = bus_stop_events d \<and>
   student_bus_scans (updateLocation s dn sn tid loc d) = student_bus_scans d \<and>
   same_registry d (updateLocation s dn sn tid loc d)"
proof -
  let ?row = "history_row sn tid loc"
  define d1 where "d1 = committed d
     (if \<not> snapshot_fits loc then Inl NumericValueOutOfRange
      else update_bus_trips s tid (snapshot dn loc) d)"
  have up: "committed d (update_bus_trips s tid (snapshot dn loc) d) =
      d\<lparr>bus_trips := on_rows s tid (snapshot dn loc) (bus_trips d)\<rparr>"
    by (rule update_bus_trips_on_rows) (simp_all add: snapshot_def)
  have keys: "map trip_key (on_rows s tid (snapshot dn loc) (bus_trips d)) =
      map trip_key (bus_trips d)"
    by (rule on_rows_keys) (simp add: snapshot_def trip_key_def)
  have a: "bus_stop_events d1 = bus_stop_events d \<and>
      student_bus_scans d1 = student_bus_scans d \<and> same_registry d d1"
  proof (cases "snapshot_fits loc")
    case True
    then have "d1 = d\<lparr>bus_trips := on_rows s tid (snapshot dn loc) (bus_trips d)\<rparr>"
      unfolding d1_def using up by simp
    then show ?thesis
      using keys by (simp add: same_registry_def)
  next
    case False
    then have "d1 = d"
      unfolding d1_def by (simp add: committed_def)
    then show ?thesis
      by (simp add: same_registry_def)
  qed
  have eq: "updateLocation s dn sn tid loc d =
      committed d1 (insert_bus_location_history s ?row d1)"
    unfolding d1_def
    by (simp add: updateLocation_def history_row_def snapshot_def [abs_def] Let_def)
  have b: "committed d1 (insert_bus_location_history s ?row d1) = d1 \<or>
      committed d1 (insert_bus_location_history s ?row d1) =
        d1\<lparr>bus_location_history := bus_location_history d1 @ [?row]\<rparr>"
    by (simp add: insert_bus_location_history_def committed_def)
  from b show ?thesis
  proof
    assume "committed d1 (insert_bus_location_history s ?row d1) = d1"
    with a show ?thesis unfolding eq by simp
  next
    assume "committed d1 (insert_bus_location_history s ?row d1) =
        d1\<lparr>bus_location_history := bus_location_history d1 @ [?row]\<rparr>"
    with a show ?thesis unfolding eq by (simp add: same_registry_def)
  qed
qed

lemma sendAlert_keeps:
  "snd (handleSendAlert s now tid trp k d) = d"
  by (simp add: handleSendAlert_def insert_bus_alerts_refused split: option.splits)

lemma stop_log_cong:
  assumes "bus_stop_events d' = bus_stop_events d"
  shows "stop_log tid sid d' = stop_log tid sid d"
  by (simp add: stop_log_def assms)

lemma screen_synced_cong:
  assumes "bus_stop_events d' = bus_stop_events d"
  shows "screen_synced tid ui d' = screen_synced tid ui d"
  by (simp add: screen_synced_def stop_log_cong [OF assms])

lemma visible_school:
  assumes "bus_trips_view s t \<or> bus_trips_driver s t"
  shows "bt_school_id t = get_user_school_id s"
  using assms by (auto simp: bus_trips_view_def bus_trips_driver_def)

lemma visible_events:
  assumes "filter (\<lambda>t. bt_id t = tid \<and> (bus_trips_view s t \<or> bus_trips_driver s t))
      (bus_trips d) = [tr]"
  shows "filter (\<lambda>e. e_trip_id e = tid \<and> bus_stop_events_select s d e) (bus_stop_events d) =
     filter (\<lambda>e. e_trip_id e = tid) (bus_stop_events d)"
proof -
  have "tr \<in> set (filter (\<lambda>t. bt_id t = tid \<and> (bus_trips_view s t \<or> bus_trips_driver s t))
      (bus_trips d))"
    unfolding assms by simp
  then have tr: "tr \<in> set (bus_trips d)" "bt_id tr = tid"
    "bus_trips_view s tr \<or> bus_trips_driver s tr"
    by simp_all
  have "bus_stop_events_select s d e" if "e_trip_id e = tid" for e
    unfolding bus_stop_events_select_def
    using tr visible_school [OF tr(3)] that by (intro disjI2 bexI [of _ tr]) simp_all
  then show ?thesis
    by (intro filter_cong) auto
qed

lemma fetch_stops:
  assumes "filter (\<lambda>t. bt_id t = tid \<and> (bus_trips_view s t \<or> bus_trips_driver s t))
      (bus_trips d) = [tr]"
  shows "stops (fetchTripData s tid d ui) =
     stopsWithEvents
       (sort_key stop_number
          (filter (\<lambda>st. stop_route_id st = bt_route_id tr \<and> stop_active st \<and>
                         bus_stops_view s st) (bus_stops d)))
       (filter (\<lambda>e. e_trip_id e = tid) (bus_stop_events d))"
  using assms by (simp add: fetchTripData_def Let_def visible_events [OF assms])

lemma stopsWithEvents_flags:
  assumes "b \<in> set (stopsWithEvents stopsData (filter (\<lambda>e. e_trip_id e = tid) (bus_stop_events d)))"
  shows "(arrived b \<longleftrightarrow> Arrived \<in> set (stop_log tid (stop_id (bs_row b)) d)) \<and>
         (departed b \<longleftrightarrow> Departed \<in> set (stop_log tid (stop_id (bs_row b)) d))"
proof -
  from assms obtain stop where
    b: "b = \<lparr>bs_row = stop,
        arrived = Arrived \<in> set (map event_type (filter (\<lambda>e. e_stop_id e = stop_id stop)
           (filter (\<lambda>e. e_trip_id e = tid) (bus_stop_events d)))),
        departed = Departed \<in> set (map event_type (filter (\<lambda>e. e_stop_id e = stop_id stop)
           (filter (\<lambda>e. e_trip_id e = tid) (bus_stop_events d))))\<rparr>"
    by (auto simp: stopsWithEvents_def Let_def)
  have "set (map event_type (filter (\<lambda>e. e_stop_id e = stop_id stop)
           (filter (\<lambda>e. e_trip_id e = tid) (bus_stop_events d)))) =
        set (stop_log tid (stop_id stop) d)"
    by (simp add: stop_log_def conj_commute)
  then show ?thesis unfolding b by simp
qed

lemma synced_fetch_single:
  assumes "filter (\<lambda>t. bt_id t = tid \<and> (bus_trips_view s t \<or> bus_trips_driver s t))
      (bus_trips d) = [tr]"
  shows "screen_synced tid (fetchTripData s tid d ui) d"
  unfolding screen_synced_def fetch_stops [OF assms]
  using stopsWithEvents_flags by blast

lemma fetch_not_single:
  assumes "\<not> (\<exists>tr. filter (\<lambda>t. bt_id t = tid \<and> (bus_trips_view s t \<or> bus_trips_driver s t))
      (bus_trips d) = [tr])"
  shows "fetchTripData s tid d ui = ui"
  using assms by (simp add: fetchTripData_def split: list.splits)

lemma synced_fetch:
  assumes "screen_synced tid ui d"
  shows "screen_synced tid (fetchTripData s tid d ui) d"
proof (cases "\<exists>tr. filter (\<lambda>t. bt_id t = tid \<and> (bus_trips_view s t \<or> bus_trips_driver s t))
      (bus_trips d) = [tr]")
  case True
  then show ?thesis using synced_fetch_single by blast
next
  case False
  then show ?thesis using assms by (simp add: fetch_not_single)
qed

lemma filter_key_single:
  assumes "distinct (map f xs)" and "x \<in> set xs"
  shows "filter (\<lambda>y. f y = f x) xs = [x]"
  using assms
proof (induction xs)
  case Nil
  then show ?case by simp
next
  case (Cons a xs)
  show ?case
  proof (cases "a = x")
    case True
    with Cons.prems have "\<forall>y \<in> set xs. f y \<noteq> f x"
      by (auto simp: image_iff)
    then have "filter (\<lambda>y. f y = f x) xs = []"
      by (simp add: filter_empty_conv)
    with True show ?thesis by simp
  next
    case False
    with Cons.prems have "x \<in> set xs" "distinct (map f xs)" "f a \<noteq> f x"
      by (auto simp: image_iff)
    with Cons.IH show ?thesis by simp
  qed
qed

lemma stop_at_mem:
  assumes "stop_at xs i = Some b"
  shows "b \<in> set xs"
  using assms by (auto simp: stop_at_def split: if_splits)

lemma stop_log_ok_no_arrival:
  assumes "stop_log_ok l" and "Arrived \<notin> set l"
  shows "l = []"
  using assms by (auto simp: stop_log_ok_def)

lemma stop_log_ok_arrived_only:
  assumes "stop_log_ok l" and "Arrived \<in> set l" and "Departed \<notin> set l"
  shows "l = [Arrived]"
  using assms by (auto simp: stop_log_ok_def)

lemma visible_single:
  assumes "distinct (map bt_id (bus_trips d))" and "trip_rows_driver s d tid"
  shows "\<exists>tr. filter (\<lambda>t. bt_id t = tid \<and> (bus_trips_view s t \<or> bus_trips_driver s t))
      (bus_trips d) = [tr]"
proof -
  from assms(2) obtain t where t: "t \<in> set (bus_trips d)"
    "bus_trips_view s t \<or> bus_trips_driver s t" "bt_id t = tid"
    unfolding trip_rows_driver_def by blast
  have "filter (\<lambda>y. bt_id y = bt_id t) (bus_trips d) = [t]"
    by (rule filter_key_single [OF assms(1) t(1)])
  then have "filter (\<lambda>y. bt_id y = tid) (bus_trips d) = [t]"
    using t(3) by simp
  then have "filter (\<lambda>t. bus_trips_view s t \<or> bus_trips_driver s t)
      (filter (\<lambda>y. bt_id y = tid) (bus_trips d)) = [t]"
    using t(2) by simp
  then show ?thesis
    by simp
qed

lemma inv_frame:
  assumes "session_inv tid (ui, d)"
    and "map bt_id (bus_trips d') = map bt_id (bus_trips d)"
    and "bus_stop_events d' = bus_stop_events d"
  shows "session_inv tid (ui, d')" and "session_inv tid (fetchTripData s tid d' ui, d')"
proof -
  from assms(1) have dist: "distinct (map bt_id (bus_trips d))"
    and wf: "\<And>sid. stop_log_ok (stop_log tid sid d)"
    and syn: "screen_synced tid ui d"
    by (simp_all add: session_inv_def)
  have dist': "distinct (map bt_id (bus_trips d'))"
    using dist assms(2) by simp
  have wf': "stop_log_ok (stop_log tid sid d')" for sid
    using wf [of sid] by (simp add: stop_log_cong [OF assms(3)])
  have syn': "screen_synced tid ui d'"
    using syn by (simp add: screen_synced_cong [OF assms(3)])
  show "session_inv tid (ui, d')"
    using dist' wf' syn' by (simp add: session_inv_def)
  show "session_inv tid (fetchTripData s tid d' ui, d')"
    using dist' wf' synced_fetch [OF syn'] by (simp add: session_inv_def)
qed

lemma inv_after_append:
  assumes "session_inv tid (ui, d)"
    and keys: "map trip_key (bus_trips d') = map trip_key (bus_trips d)"
    and ev: "bus_stop_events d' =
       (if trip_rows_driver s d tid then bus_stop_events d @ [e] else bus_stop_events d)"
    and e: "e_trip_id e = tid"
    and ok: "stop_log_ok (stop_log tid (e_stop_id e) d @ [event_type e])"
  shows "session_inv tid (fetchTripData s tid d' ui, d')"
proof (cases "trip_rows_driver s d tid")
  case False
  with ev have "bus_stop_events d' = bus_stop_events d" by simp
  from inv_frame(2) [OF assms(1) keys_ids [OF keys] this] show ?thesis .
next
  case True
  from assms(1) have dist: "distinct (map bt_id (bus_trips d))"
    and wf: "\<And>sid. stop_log_ok (stop_log tid sid d)"
    by (simp_all add: session_inv_def)
  have dist': "distinct (map bt_id (bus_trips d'))"
    using dist keys_ids [OF keys] by simp
  have log: "stop_log tid sid d' =
      stop_log tid sid d @ (if e_stop_id e = sid then [event_type e] else [])" for sid
    using True ev e by (simp add: stop_log_def)
  have wf': "stop_log_ok (stop_log tid sid d')" for sid
    unfolding log using wf [of sid] ok by auto
  have "trip_rows_driver s d' tid"
    using True by (simp add: trip_rows_driver_keys [OF keys])
  from visible_single [OF dist' this]
  obtain tr where "filter (\<lambda>t. bt_id t = tid \<and> (bus_trips_view s t \<or> bus_trips_driver s t))
      (bus_trips d') = [tr]" ..
  from synced_fetch_single [OF this]
  have "screen_synced tid (fetchTripData s tid d' ui) d'" .
  with dist' wf' show ?thesis by (simp add: session_inv_def)
qed

lemma inv_pressStopAction:
  assumes "session_inv tid (ui, d)"
  shows "session_inv tid (pressStopAction s now tid (ui, d))"
proof (cases "stop_at (stops ui) (currentStopIndex ui)")
  case None
  with assms show ?thesis by (simp add: pressStopAction_def)
next
  case (Some b)
  from assms have wf: "\<And>sid. stop_log_ok (stop_log tid sid d)"
    and syn: "screen_synced tid ui d"
    by (simp_all add: session_inv_def)
  let ?sid = "stop_id (bs_row b)"
  from stop_at_mem [OF Some] syn
  have fa: "arrived b \<longleftrightarrow> Arrived \<in> set (stop_log tid ?sid d)"
    and fd: "departed b \<longleftrightarrow> Departed \<in> set (stop_log tid ?sid d)"
    by (auto simp: screen_synced_def)
  show ?thesis
  proof (cases "arrived b")
    case False
    let ?d' = "handleArriveAtStop s now tid b d"
    have "stop_log tid ?sid d = []"
      using stop_log_ok_no_arrival [OF wf [of ?sid]] fa False by simp
    then have ok: "stop_log_ok (stop_log tid (e_stop_id (arrived_event now tid b)) d @
        [event_type (arrived_event now tid b)])"
      by (simp add: arrived_event_def stop_log_ok_def)
    have keys: "map trip_key (bus_trips ?d') = map trip_key (bus_trips d)"
      using arrive_registry [of d s now tid b] by (simp add: same_registry_def)
    have ev: "bus_stop_events ?d' =
       (if trip_rows_driver s d tid then bus_stop_events d @ [arrived_event now tid b]
        else bus_stop_events d)"
      unfolding arrive_general by simp
    have "session_inv tid (fetchTripData s tid ?d' ui, ?d')"
      by (rule inv_after_append [OF assms keys ev _ ok]) (simp add: arrived_event_def)
    with Some False show ?thesis
      by (simp add: pressStopAction_def Let_def)
  next
    case True
    note arr = True
    show ?thesis
    proof (cases "departed b")
      case True
      with Some arr assms show ?thesis by (simp add: pressStopAction_def)
    next
      case False
      let ?n = "int (length (filter boarded
          (filter (\<lambda>st. st_stop_id st = Some (stop_id (bs_row b))) (students ui))))"
      let ?d' = "handleDepartFromStop s now tid b ?n 0 d"
      have "stop_log tid ?sid d = [Arrived]"
        using stop_log_ok_arrived_only [OF wf [of ?sid]] fa fd arr False by simp
      then have ok: "stop_log_ok (stop_log tid (e_stop_id (departed_event now tid b ?n 0)) d @
          [event_type (departed_event now tid b ?n 0)])"
        by (simp add: departed_event_def stop_log_ok_def)
      have keys: "map trip_key (bus_trips ?d') = map trip_key (bus_trips d)"
        unfolding depart_general by simp
      have ev: "bus_stop_events ?d' =
         (if trip_rows_driver s d tid then bus_stop_events d @ [departed_event now tid b ?n 0]
          else bus_stop_events d)"
        unfolding depart_general by simp
      have "session_inv tid (fetchTripData s tid ?d' ui, ?d')"
        by (rule inv_after_append [OF assms keys ev _ ok]) (simp add: departed_event_def)
      with Some arr False show ?thesis
        by (simp add: pressStopAction_def Let_def)
    qed
  qed
qed

lemma inv_pressStopItem:
  assumes "session_inv tid (ui, d)"
  shows "session_inv tid (pressStopItem index (ui, d))"
  using assms by (simp add: pressStopItem_def session_inv_def screen_synced_def)

lemma inv_pressStudent:
  assumes "session_inv tid (ui, d)"
  shows "session_inv tid (pressStudent s now tid sid (ui, d))"
proof (cases "find (\<lambda>st. st_id st = sid) (studentsAtCurrentStop ui)")
  case None
  with assms show ?thesis by (simp add: pressStudent_def)
next
  case (Some st)
  show ?thesis
    unfolding pressStudent_found [OF Some]
    by (rule inv_frame(2) [OF assms registry_ids [OF scan_registry] scan_keeps_events])
qed

lemma inv_act:
  assumes "session_inv tid st"
  shows "session_inv tid (act s tid a st)"
proof -
  obtain ui d where st: "st = (ui, d)" by (cases st)
  show ?thesis
  proof (cases a)
    case (PressStopAction now)
    with assms st show ?thesis by (simp add: inv_pressStopAction)
  next
    case (PressStopItem index)
    with assms st show ?thesis by (simp add: inv_pressStopItem)
  next
    case (PressStudent now sid)
    with assms st show ?thesis by (simp add: inv_pressStudent)
  next
    case (ReportPosition dn now loc)
    have "map bt_id (bus_trips (updateLocation s dn now tid loc d)) = map bt_id (bus_trips d)"
      using updateLocation_keeps [of s dn now tid loc d] by (intro registry_ids) simp
    moreover have "bus_stop_events (updateLocation s dn now tid loc d) = bus_stop_events d"
      using updateLocation_keeps [of s dn now tid loc d] by simp
    ultimately have "session_inv tid (ui, updateLocation s dn now tid loc d)"
      by (rule inv_frame(1) [OF assms [unfolded st]])
    with ReportPosition st show ?thesis by simp
  next
    case (SendAlert now k)
    show ?thesis
    proof (cases "trip ui")
      case None
      with SendAlert st assms show ?thesis by simp
    next
      case (Some trp)
      with SendAlert st assms show ?thesis by (simp add: sendAlert_keeps)
    qed
  qed
qed

lemma inv_run:
  assumes "session_inv tid st"
  shows "session_inv tid (run s tid acts st)"
  using assms unfolding run_def
  by (induction acts arbitrary: st) (simp_all add: inv_act)

lemma inv_mount:
  assumes "distinct (map bt_id (bus_trips d))" and "\<And>sid. stop_log_ok (stop_log tid sid d)"
  shows "session_inv tid (mount s tid d)"
proof -
  have "screen_synced tid initial_screen d"
    by (simp add: screen_synced_def initial_screen_def)
  from synced_fetch [OF this] assms show ?thesis
    by (simp add: mount_def session_inv_def)
qed

lemma stop_log_ok_facts:
  assumes "stop_log_ok l"
  shows "length (filter (\<lambda>e. e = Arrived) l) \<le> 1 \<and>
         length (filter (\<lambda>e. e = Departed \<or> e = Skipped) l) \<le> 1 \<and>
         (\<forall>i < length l. l ! i = Departed \<or> l ! i = Skipped \<longrightarrow> Suc i = length l)"
  using assms unfolding stop_log_ok_def
  by (elim disjE) (simp_all add: nth_Cons split: nat.splits)

text \<open>
  Claim C4, as the code has it. \<open>handleArriveAtStop\<close> and \<open>handleDepartFromStop\<close>
  append their event whatever the log holds and never fail with \<open>AlreadyArrived\<close>;
  the order of the log is kept by the screen, which offers the arrival only while the
  loaded stop has no arrival and the departure only while it has an arrival and no
  departure. For a trip whose stop logs are in order when the screen mounts, and
  whatever the driver then does on the screen, each handler finishing before the next
  starts: the log of every stop is empty, one arrival, or one arrival followed by one
  departure. So it holds at most one arrival and at most one terminal event, and
  nothing follows the terminal event.
\<close>

theorem screen_keeps_stop_log_in_order:
  assumes "distinct (map bt_id (bus_trips d))"
    and "\<forall>sid. stop_log_ok (stop_log tid sid d)"
  shows "let d' = snd (run s tid acts (mount s tid d)) in
      \<forall>sid.
        (stop_log tid sid d' = [] \<or> stop_log tid sid d' = [Arrived] \<or>
         stop_log tid sid d' = [Arrived, Departed]) \<and>
        length (filter (\<lambda>e. e = Arrived) (stop_log tid sid d')) \<le> 1 \<and>
        length (filter (\<lambda>e. e = Departed \<or> e = Skipped) (stop_log tid sid d')) \<le> 1 \<and>
        (\<forall>i < length (stop_log tid sid d').
           stop_log tid sid d' ! i = Departed \<or> stop_log tid sid d' ! i = Skipped \<longrightarrow>
           Suc i = length (stop_log tid sid d'))"
proof -
  have "session_inv tid (mount s tid d)"
    using assms by (intro inv_mount) simp_all
  then have "session_inv tid (run s tid acts (mount s tid d))"
    by (rule inv_run)
  then have ok: "stop_log_ok (stop_log tid sid (snd (run s tid acts (mount s tid d))))" for sid
    by (simp add: session_inv_def)
  show ?thesis
    unfolding Let_def
    using ok stop_log_ok_facts [OF ok] by (simp add: stop_log_ok_def)
qed

theorem screen_keeps_stop_log_in_order_witness:
  "distinct (map bt_id (bus_trips db1)) \<and>
   (\<forall>sid. stop_log_ok (stop_log 1 sid db1)) \<and>
   stop_log 1 53 (snd (run driver7 1
      [PressStopItem 2, PressStopAction 11, PressStopItem 2, PressStopAction 12,
       PressStopItem 2, PressStopAction 13] (mount driver7 1 db1))) = [Arrived, Departed] \<and>
   (let d' = snd (run driver7 1
      [PressStopItem 2, PressStopAction 11, PressStopItem 2, PressStopAction 12,
       PressStopItem 2, PressStopAction 13] (mount driver7 1 db1)) in
      \<forall>sid.
        (stop_log 1 sid d' = [] \<or> stop_log 1 sid d' = [Arrived] \<or>
         stop_log 1 sid d' = [Arrived, Departed]) \<and>
        length (filter (\<lambda>e. e = Arrived) (stop_log 1 sid d')) \<le> 1 \<and>
        length (filter (\<lambda>e. e = Departed \<or> e = Skipped) (stop_log 1 sid d')) \<le> 1 \<and>
        (\<forall>i < length (stop_log 1 sid d').
           stop_log 1 sid d' ! i = Departed \<or> stop_log 1 sid d' ! i = Skipped \<longrightarrow>
           Suc i = length (stop_log 1 sid d')))"
proof -
  have h1: "distinct (map bt_id (bus_trips db1))"
    by (simp add: example_defs)
  have h2: "\<forall>sid. stop_log_ok (stop_log 1 sid db1)"
    by (simp add: stop_log_def stop_log_ok_def example_defs)
  have run: "stop_log 1 53 (snd (run driver7 1
      [PressStopItem 2, PressStopAction 11, PressStopItem 2, PressStopAction 12,
       PressStopItem 2, PressStopAction 13] (mount driver7 1 db1))) = [Arrived, Departed]"
    by code_simp
  show ?thesis
    using h1 h2 run screen_keeps_stop_log_in_order [OF h1 h2, of driver7
      "[PressStopItem 2, PressStopAction 11, PressStopItem 2, PressStopAction 12,
        PressStopItem 2, PressStopAction 13]"]
    by blast
qed

text \<open>
  The claim as the specification words it fails: a second call of
  \<open>handleArriveAtStop\<close> for the stop stores a second arrival and nothing fails, and
  a call after the departure stores an arrival after the terminal event.
\<close>

theorem second_arrival_is_stored:
  "stop_log 1 53 (handleArriveAtStop driver7 12 1 stop3
      (handleArriveAtStop driver7 11 1 stop3 db1)) = [Arrived, Arrived] \<and>
   stop_log 1 53 (handleArriveAtStop driver7 13 1 stop3
      (handleDepartFromStop driver7 12 1 stop3 0 0
        (handleArriveAtStop driver7 11 1 stop3 db1))) = [Arrived, Departed, Arrived]"
  by code_simp

section \<open>The student list under a session on the trip screen\<close>

lemma fetch_students:
  "students (fetchTripData s tid d ui) =
     (case loaded_students s tid d of None \<Rightarrow> students ui | Some l \<Rightarrow> l)"
proof (cases "\<exists>t. filter (\<lambda>t. bt_id t = tid \<and> (bus_trips_view s t \<or> bus_trips_driver s t))
      (bus_trips d) = [t]")
  case False
  then show ?thesis
    by (auto simp: fetchTripData_def loaded_students_def split: list.splits)
next
  case True
  then obtain t where t: "filter (\<lambda>t. bt_id t = tid \<and> (bus_trips_view s t \<or> bus_trips_driver s t))
      (bus_trips d) = [t]" ..
  show ?thesis
  proof (cases "\<forall>a \<in> set (assignmentsData s d t). embedded_student s d a \<noteq> None")
    case True
    then show ?thesis
      unfolding fetchTripData_def loaded_students_def t by (simp add: Let_def)
  next
    case False
    then show ?thesis
      unfolding fetchTripData_def loaded_students_def t by (auto simp: Let_def)
  qed
qed

lemma visible_scans:
  assumes "trip_rows_driver s d tid"
  shows "filter (\<lambda>x. s_trip_id x = tid \<and> student_bus_scans_select s d x) xs =
     filter (\<lambda>x. s_trip_id x = tid) xs"
  using assms by (intro filter_cong) (auto simp: student_bus_scans_select_def)

lemma loaded_flags:
  assumes "trip_rows_driver s d tid"
    and "loaded_students s tid d = Some l"
    and "st \<in> set l"
  shows "boarded st \<longleftrightarrow>
     (\<exists>x \<in> set (student_bus_scans d).
        s_trip_id x = tid \<and> s_student_id x = st_id st \<and> scan_type x = Board)"
proof -
  from assms(2) obtain tt as where
    "l = studentsData tt as
       (filter (\<lambda>x. s_trip_id x = tid \<and> student_bus_scans_select s d x) (student_bus_scans d))"
    by (auto simp: loaded_students_def split: list.splits if_splits)
  then have "l = studentsData tt as (filter (\<lambda>x. s_trip_id x = tid) (student_bus_scans d))"
    by (simp add: visible_scans [OF assms(1)])
  with assms(3) show ?thesis
    by (simp add: boarded_studentsData boardedStudents_iff)
qed

lemma studentsData_ids:
  "map st_id (studentsData tt as xs) = map as_student_id as"
  by (simp add: studentsData_def comp_def)

lemma visible_keys:
  assumes "map trip_key ts' = map trip_key ts"
  shows "map trip_key
       (filter (\<lambda>t. bt_id t = tid \<and> (bus_trips_view s t \<or> bus_trips_driver s t)) ts') =
     map trip_key
       (filter (\<lambda>t. bt_id t = tid \<and> (bus_trips_view s t \<or> bus_trips_driver s t)) ts)"
  using assms
proof (induction ts arbitrary: ts')
  case Nil
  then show ?case by simp
next
  case (Cons a ts)
  then obtain a' ts'' where ts': "ts' = a' # ts''" and a: "trip_key a' = trip_key a"
    and rest: "map trip_key ts'' = map trip_key ts"
    by (auto simp: map_eq_Cons_conv)
  from a have "bt_id a' = bt_id a" "bt_school_id a' = bt_school_id a"
    "bt_driver_id a' = bt_driver_id a"
    by (simp_all add: trip_key_def)
  then have "(bt_id a' = tid \<and> (bus_trips_view s a' \<or> bus_trips_driver s a')) \<longleftrightarrow>
      (bt_id a = tid \<and> (bus_trips_view s a \<or> bus_trips_driver s a))"
    by (simp add: bus_trips_view_def bus_trips_driver_def)
  with Cons.IH [OF rest] a show ?case
    unfolding ts' by simp
qed

lemma guarded_students_cong:
  assumes "student_guardians d' = student_guardians d"
  shows "guarded_students s d' = guarded_students s d"
  by (simp add: guarded_students_def assms)

lemma assignmentsData_cong:
  assumes "same_registry d d'" and "trip_key t' = trip_key t"
  shows "assignmentsData s d' t' = assignmentsData s d t"
proof -
  from assms(2) have "trip_type t' = trip_type t" "bt_route_id t' = bt_route_id t"
    by (simp_all add: trip_key_def)
  moreover from assms(1) have "student_bus_assignments d' = student_bus_assignments d"
    by (simp add: same_registry_def)
  moreover from assms(1) have "guarded_students s d' = guarded_students s d"
    by (intro guarded_students_cong) (simp add: same_registry_def)
  ultimately show ?thesis
    by (simp add: assignmentsData_def student_bus_assignments_select_def)
qed

lemma embedded_student_cong:
  assumes "same_registry d d'"
  shows "embedded_student s d' a = embedded_student s d a"
  using assms
  by (simp add: embedded_student_def view_students_def is_guardian_of_def same_registry_def)

lemma loaded_students_registry:
  assumes "same_registry d d'"
  shows "(loaded_students s tid d = None \<and> loaded_students s tid d' = None) \<or>
     (\<exists>tt as xs xs'. loaded_students s tid d = Some (studentsData tt as xs) \<and>
                     loaded_students s tid d' = Some (studentsData tt as xs'))"
proof -
  let ?F = "\<lambda>x. filter (\<lambda>t. bt_id t = tid \<and> (bus_trips_view s t \<or> bus_trips_driver s t))
      (bus_trips x)"
  from assms have "map trip_key (bus_trips d') = map trip_key (bus_trips d)"
    by (simp add: same_registry_def)
  from visible_keys [OF this] have keys: "map trip_key (?F d') = map trip_key (?F d)" .
  show ?thesis
  proof (cases "\<exists>t. ?F d = [t]")
    case False
    then have "\<not> (\<exists>t'. ?F d' = [t'])"
      using keys by (auto simp: map_eq_Cons_conv)
    with False have "loaded_students s tid d = None" "loaded_students s tid d' = None"
      by (auto simp: loaded_students_def split: list.splits)
    then show ?thesis by simp
  next
    case True
    then obtain t where t: "?F d = [t]" ..
    with keys obtain t' where t': "?F d' = [t']" and k: "trip_key t' = trip_key t"
      by (auto simp: map_eq_Cons_conv)
    have as: "assignmentsData s d' t' = assignmentsData s d t"
      by (rule assignmentsData_cong [OF assms k])
    have tt: "trip_type t' = trip_type t"
      using k by (simp add: trip_key_def)
    show ?thesis
    proof (cases "\<forall>a \<in> set (assignmentsData s d t). embedded_student s d a \<noteq> None")
      case True
      then have "\<forall>a \<in> set (assignmentsData s d' t'). embedded_student s d' a \<noteq> None"
        unfolding as by (simp add: embedded_student_cong [OF assms])
      with t' have "loaded_students s tid d' = Some (studentsData (trip_type t)
          (assignmentsData s d t)
          (filter (\<lambda>x. s_trip_id x = tid \<and> student_bus_scans_select s d' x)
             (student_bus_scans d')))"
        by (simp add: loaded_students_def as tt)
      moreover from True t have "loaded_students s tid d = Some (studentsData (trip_type t)
          (assignmentsData s d t)
          (filter (\<lambda>x. s_trip_id x = tid \<and> student_bus_scans_select s d x)
             (student_bus_scans d)))"
        unfolding loaded_students_def by simp
      ultimately show ?thesis by blast
    next
      case False
      then have "\<not> (\<forall>a \<in> set (assignmentsData s d' t'). embedded_student s d' a \<noteq> None)"
        unfolding as by (simp add: embedded_student_cong [OF assms])
      with t' have "loaded_students s tid d' = None"
        by (auto simp: loaded_students_def as)
      moreover from False t have "loaded_students s tid d = None"
        unfolding loaded_students_def by simp
      ultimately show ?thesis by simp
    qed
  qed
qed

lemma loaded_students_ids:
  assumes "same_registry d d'" and "loaded_students s tid d = Some l"
  shows "\<exists>l'. loaded_students s tid d' = Some l' \<and> map st_id l' = map st_id l"
  using loaded_students_registry [OF assms(1), of s tid] assms(2)
  by (auto simp: studentsData_ids)

lemma loaded_students_frame:
  assumes "same_registry d d'" and "student_bus_scans d' = student_bus_scans d"
  shows "loaded_students s tid d' = loaded_students s tid d"
proof -
  let ?F = "\<lambda>x. filter (\<lambda>t. bt_id t = tid \<and> (bus_trips_view s t \<or> bus_trips_driver s t))
      (bus_trips x)"
  from assms(1) have bk: "map trip_key (bus_trips d') = map trip_key (bus_trips d)"
    by (simp add: same_registry_def)
  from visible_keys [OF this] have keys: "map trip_key (?F d') = map trip_key (?F d)" .
  from assms(1) have g: "guarded_students s d' = guarded_students s d"
    by (intro guarded_students_cong) (simp add: same_registry_def)
  have sel: "student_bus_scans_select s d' x = student_bus_scans_select s d x" for x
    by (simp add: student_bus_scans_select_def trip_rows_driver_keys [OF bk] g)
  show ?thesis
  proof (cases "\<exists>t. ?F d = [t]")
    case False
    then have "\<not> (\<exists>t'. ?F d' = [t'])"
      using keys by (auto simp: map_eq_Cons_conv)
    with False have "loaded_students s tid d = None" "loaded_students s tid d' = None"
      by (auto simp: loaded_students_def split: list.splits)
    then show ?thesis by simp
  next
    case True
    then obtain t where t: "?F d = [t]" ..
    with keys obtain t' where t': "?F d' = [t']" and k: "trip_key t' = trip_key t"
      by (auto simp: map_eq_Cons_conv)
    have as: "assignmentsData s d' t' = assignmentsData s d t"
      by (rule assignmentsData_cong [OF assms(1) k])
    have tt: "trip_type t' = trip_type t"
      using k by (simp add: trip_key_def)
    show ?thesis
      by (simp add: loaded_students_def t t' as tt assms(2)
          embedded_student_cong [OF assms(1)] sel)
  qed
qed

lemma roster_fetch:
  assumes "trip_rows_driver s d tid"
    and "students ui = [] \<or> loaded_students s tid d \<noteq> None"
  shows "roster_inv s tid (fetchTripData s tid d ui, d)"
proof (cases "loaded_students s tid d")
  case None
  with assms have "students (fetchTripData s tid d ui) = []"
    by (simp add: fetch_students)
  with assms(1) show ?thesis
    by (simp add: roster_inv_def)
next
  case (Some l)
  then have "students (fetchTripData s tid d ui) = l"
    by (simp add: fetch_students)
  with assms(1) Some show ?thesis
    by (simp add: roster_inv_def)
qed

lemma roster_step:
  assumes "roster_inv s tid (ui, d)" and "same_registry d d'"
  shows "roster_inv s tid (fetchTripData s tid d' ui, d')"
proof -
  from assms(2) have bk: "map trip_key (bus_trips d') = map trip_key (bus_trips d)"
    by (simp add: same_registry_def)
  from assms(1) have adm: "trip_rows_driver s d' tid"
    by (simp add: roster_inv_def trip_rows_driver_keys [OF bk])
  have "students ui = [] \<or> loaded_students s tid d' \<noteq> None"
  proof (cases "students ui = []")
    case True
    then show ?thesis by simp
  next
    case False
    with assms(1) have "loaded_students s tid d = Some (students ui)"
      by (simp add: roster_inv_def)
    from loaded_students_ids [OF assms(2) this] show ?thesis by auto
  qed
  with adm show ?thesis by (rule roster_fetch)
qed

lemma roster_frame:
  assumes "roster_inv s tid (ui, d)" and "same_registry d d'"
    and "student_bus_scans d' = student_bus_scans d"
  shows "roster_inv s tid (ui, d')"
proof -
  from assms(2) have bk: "map trip_key (bus_trips d') = map trip_key (bus_trips d)"
    by (simp add: same_registry_def)
  show ?thesis
    using assms(1)
    by (simp add: roster_inv_def trip_rows_driver_keys [OF bk]
        loaded_students_frame [OF assms(2,3)])
qed

lemma roster_pressStopAction:
  assumes "roster_inv s tid (ui, d)"
  shows "roster_inv s tid (pressStopAction s now tid (ui, d))"
proof (cases "stop_at (stops ui) (currentStopIndex ui)")
  case None
  with assms show ?thesis by (simp add: pressStopAction_def)
next
  case (Some b)
  show ?thesis
  proof (cases "arrived b")
    case False
    have "roster_inv s tid (fetchTripData s tid (handleArriveAtStop s now tid b d) ui,
        handleArriveAtStop s now tid b d)"
      by (rule roster_step [OF assms arrive_registry])
    with Some False show ?thesis
      by (simp add: pressStopAction_def Let_def)
  next
    case True
    note arr = True
    show ?thesis
    proof (cases "departed b")
      case True
      with Some arr assms show ?thesis by (simp add: pressStopAction_def)
    next
      case False
      let ?n = "int (length (filter boarded
          (filter (\<lambda>st. st_stop_id st = Some (stop_id (bs_row b))) (students ui))))"
      have "roster_inv s tid (fetchTripData s tid (handleDepartFromStop s now tid b ?n 0 d) ui,
          handleDepartFromStop s now tid b ?n 0 d)"
        by (rule roster_step [OF assms depart_registry])
      with Some arr False show ?thesis
        by (simp add: pressStopAction_def Let_def)
    qed
  qed
qed

lemma roster_pressStopItem:
  assumes "roster_inv s tid (ui, d)"
  shows "roster_inv s tid (pressStopItem index (ui, d))"
  using assms by (simp add: pressStopItem_def roster_inv_def)

lemma roster_pressStudent:
  assumes "roster_inv s tid (ui, d)"
  shows "roster_inv s tid (pressStudent s now tid sid (ui, d))"
proof (cases "find (\<lambda>st. st_id st = sid) (studentsAtCurrentStop ui)")
  case None
  with assms show ?thesis by (simp add: pressStudent_def)
next
  case (Some st)
  show ?thesis
    unfolding pressStudent_found [OF Some]
    by (rule roster_step [OF assms scan_registry])
qed

lemma roster_act:
  assumes "roster_inv s tid st"
  shows "roster_inv s tid (act s tid a st)"
proof -
  obtain ui d where st: "st = (ui, d)" by (cases st)
  show ?thesis
  proof (cases a)
    case (PressStopAction now)
    with assms st show ?thesis by (simp add: roster_pressStopAction)
  next
    case (PressStopItem index)
    with assms st show ?thesis by (simp add: roster_pressStopItem)
  next
    case (PressStudent now sid)
    with assms st show ?thesis by (simp add: roster_pressStudent)
  next
    case (ReportPosition dn now loc)
    have "same_registry d (updateLocation s dn now tid loc d)"
      and "student_bus_scans (updateLocation s dn now tid loc d) = student_bus_scans d"
      using updateLocation_keeps [of s dn now tid loc d] by simp_all
    then have "roster_inv s tid (ui, updateLocation s dn now tid loc d)"
      by (rule roster_frame [OF assms [unfolded st]])
    with ReportPosition st show ?thesis by simp
  next
    case (SendAlert now k)
    show ?thesis
    proof (cases "trip ui")
      case None
      with SendAlert st assms show ?thesis by simp
    next
      case (Some trp)
      with SendAlert st assms show ?thesis by (simp add: sendAlert_keeps)
    qed
  qed
qed

lemma roster_run:
  assumes "roster_inv s tid st"
  shows "roster_inv s tid (run s tid acts st)"
  using assms unfolding run_def
  by (induction acts arbitrary: st) (simp_all add: roster_act)

lemma roster_mount:
  assumes "trip_rows_driver s d tid"
  shows "roster_inv s tid (mount s tid d)"
  unfolding mount_def
  by (rule roster_fetch [OF assms]) (simp add: initial_screen_def)

text \<open>
  Claim C10. On the trip screen of a user whom the scan policy admits, whatever the
  user has done on the screen since it mounted, a listed student is flagged as boarded
  exactly when the scan log of the trip holds a \<open>board\<close> scan of that student; exit
  scans are not read. So a student with a board scan stays flagged whatever exits
  follow: pressing the row of a flagged student on the card of the current stop scans
  \<open>exit\<close> again, and after the reload the student is still listed and still
  flagged.
\<close>

theorem boarded_flag_ignores_exit_scans:
  assumes adm: "trip_rows_driver s d tid"
    and run: "run s tid acts (mount s tid d) = (ui, d')"
  shows "(\<forall>st' \<in> set (students ui).
            boarded st' \<longleftrightarrow>
              (\<exists>x \<in> set (student_bus_scans d').
                 s_trip_id x = tid \<and> s_student_id x = st_id st' \<and> scan_type x = Board)) \<and>
         (find (\<lambda>st. st_id st = sid) (studentsAtCurrentStop ui) = Some st \<and> boarded st \<longrightarrow>
            (let (ui2, d2) = pressStudent s now tid sid (ui, d') in
               student_bus_scans d2 = student_bus_scans d' @ [scan_row now tid ui st Exit] \<and>
               sid \<in> st_id ` set (students ui2) \<and>
               (\<forall>st' \<in> set (students ui2). st_id st' = sid \<longrightarrow> boarded st')))"
proof -
  have "roster_inv s tid (run s tid acts (mount s tid d))"
    by (rule roster_run [OF roster_mount [OF adm]])
  then have inv: "roster_inv s tid (ui, d')"
    unfolding run .
  then have adm': "trip_rows_driver s d' tid"
    and ro: "students ui = [] \<or> loaded_students s tid d' = Some (students ui)"
    by (simp_all add: roster_inv_def)
  have flags: "boarded st' \<longleftrightarrow>
      (\<exists>x \<in> set (student_bus_scans d').
         s_trip_id x = tid \<and> s_student_id x = st_id st' \<and> scan_type x = Board)"
    if "st' \<in> set (students ui)" for st'
  proof -
    from that ro have "loaded_students s tid d' = Some (students ui)" by auto
    from loaded_flags [OF adm' this that] show ?thesis .
  qed
  have press: "(let (ui2, d2) = pressStudent s now tid sid (ui, d') in
               student_bus_scans d2 = student_bus_scans d' @ [scan_row now tid ui st Exit] \<and>
               sid \<in> st_id ` set (students ui2) \<and>
               (\<forall>st' \<in> set (students ui2). st_id st' = sid \<longrightarrow> boarded st'))"
    if f: "find (\<lambda>st. st_id st = sid) (studentsAtCurrentStop ui) = Some st" and b: "boarded st"
  proof -
    let ?d2 = "handleScanStudent s now tid ui st Exit d'"
    let ?ui2 = "fetchTripData s tid ?d2 ui"
    have p: "pressStudent s now tid sid (ui, d') = (?ui2, ?d2)"
      using b by (simp add: pressStudent_found [OF f])
    from f have "st \<in> set (studentsAtCurrentStop ui)" and sid: "st_id st = sid"
      by (auto simp: find_Some_iff)
    then have mem: "st \<in> set (students ui)"
      using studentsAtCurrentStop_subset by blast
    have scans: "student_bus_scans ?d2 = student_bus_scans d' @ [scan_row now tid ui st Exit]"
      by (rule scans_after_scan [OF adm'])
    have "roster_inv s tid (?ui2, ?d2)"
      by (rule roster_step [OF inv scan_registry])
    then have adm2: "trip_rows_driver s ?d2 tid"
      by (simp add: roster_inv_def)
    from mem ro have l: "loaded_students s tid d' = Some (students ui)" by auto
    from loaded_students_ids [OF scan_registry l]
    obtain l2 where l2: "loaded_students s tid ?d2 = Some l2"
      and ids: "map st_id l2 = map st_id (students ui)"
      by blast
    have s2: "students ?ui2 = l2"
      by (simp add: fetch_students l2)
    have "sid \<in> set (map st_id (students ui))"
      using mem sid by auto
    then have listed: "sid \<in> st_id ` set (students ?ui2)"
      unfolding s2 ids [symmetric] by simp
    have flagged: "boarded st'" if m: "st' \<in> set (students ?ui2)" and i: "st_id st' = sid" for st'
    proof -
      from b flags [OF mem] sid obtain x where "x \<in> set (student_bus_scans d')"
        "s_trip_id x = tid" "s_student_id x = sid" "scan_type x = Board"
        by auto
      then have "\<exists>x \<in> set (student_bus_scans ?d2).
          s_trip_id x = tid \<and> s_student_id x = st_id st' \<and> scan_type x = Board"
        unfolding scans using i by auto
      moreover from m have "st' \<in> set l2"
        unfolding s2 .
      ultimately show ?thesis
        using loaded_flags [OF adm2 l2] by blast
    qed
    show ?thesis
      unfolding p using scans listed flagged by simp
  qed
  from flags press show ?thesis by blast
qed

theorem boarded_flag_ignores_exit_scans_witness:
  "trip_rows_driver admin9 db1 1 \<and>
   run admin9 1 [PressStudent 3 40, PressStudent 4 40] (mount admin9 1 db1) =
     (fst session40, snd session40) \<and>
   map scan_type (student_bus_scans (snd session40)) = [Board, Exit] \<and>
   map boarded (students (fst session40)) = [True] \<and>
   find (\<lambda>st. st_id st = 40) (studentsAtCurrentStop (fst session40)) = Some st40 \<and>
   boarded st40 \<and>
   (let (ui2, d2) = pressStudent admin9 5 1 40 (fst session40, snd session40) in
      student_bus_scans d2 =
        student_bus_scans (snd session40) @ [scan_row 5 1 (fst session40) st40 Exit] \<and>
      40 \<in> st_id ` set (students ui2) \<and>
      (\<forall>st' \<in> set (students ui2). st_id st' = 40 \<longrightarrow> boarded st'))"
proof -
  have adm: "trip_rows_driver admin9 db1 1"
    by (simp add: trip_rows_driver_def bus_trips_view_def bus_trips_driver_def example_defs)
  have run: "run admin9 1 [PressStudent 3 40, PressStudent 4 40] (mount admin9 1 db1) =
     (fst session40, snd session40)"
    by (simp add: session40_def)
  have log: "map scan_type (student_bus_scans (snd session40)) = [Board, Exit]"
    by code_simp
  have shown: "map boarded (students (fst session40)) = [True]"
    by code_simp
  have f: "find (\<lambda>st. st_id st = 40) (studentsAtCurrentStop (fst session40)) = Some st40"
    by code_simp
  have b: "boarded st40"
    by (simp add: st40_def)
  from boarded_flag_ignores_exit_scans [OF adm run, of 40 st40 5] adm run log shown f b
  show ?thesis
    by blast
qed

text \<open>
  The driver of the trip is shown no student: the read policy of \<open>students\<close> hides
  the rows from the role, the load stops after the stops are set, and the list stays
  empty.
\<close>

lemma driver_is_shown_no_student:
  "map stop_id (map bs_row (stops (fst (mount driver7 1 db1)))) = [51, 52, 53] \<and>
   students (fst (mount driver7 1 db1)) = [] \<and>
   map st_id (students (fst (mount admin9 1 db1))) = [40]"
  by code_simp

end
